theory Spec2Isabelle
  imports Main "HOL-Library.Log_Nat" "HOL-Library.List_Lexorder"
begin

section \<open>The UCI options of the engine: a shallow embedding\<close>

text \<open>
  The embedded file defines the comparator \<^verbatim>\<open>CaseInsensitiveLess\<close>, the five constructors
  of \<^verbatim>\<open>Option\<close>, its conversion operators, \<^verbatim>\<open>Option::operator<<\<close> (declaration, which
  hands out the insertion index), \<^verbatim>\<open>Option::operator=\<close> (a write of a textual value) and
  the printer \<^verbatim>\<open>operator<<(std::ostream&, const OptionsMap&)\<close>.

  The declarations of \<^verbatim>\<open>uci.h\<close> are not part of the file. They are taken as the code uses
  them: \<^verbatim>\<open>OptionsMap\<close> is a \<^verbatim>\<open>std::map<std::string, Option, CaseInsensitiveLess>\<close>,
  \<^verbatim>\<open>OnChange\<close> is a pointer to a function \<^verbatim>\<open>void(const Option&)\<close>, and an \<^verbatim>\<open>Option\<close>
  has the fields \<^verbatim>\<open>defaultValue, currentValue, type, min, max, idx, on_change\<close>.
\<close>

subsection \<open>Characters\<close>

text \<open>
  A \<^verbatim>\<open>char\<close> is promoted to \<^verbatim>\<open>int\<close> when it is passed to \<^verbatim>\<open>tolower\<close>. It is taken as
  signed, as on x86, so the bytes from 128 on are negative. Where they stand in the order
  depends on that; which strings the comparator holds equal does not.
\<close>

definition char_to_int :: "char \<Rightarrow> int" where
  "char_to_int c = (if (of_char c :: nat) < 128 then of_char c else of_char c - 256)"

text \<open>\<^verbatim>\<open>tolower\<close> in the "C" locale (the engine never calls \<^verbatim>\<open>setlocale\<close>).\<close>

definition tolower :: "int \<Rightarrow> int" where
  "tolower c = (if 65 \<le> c \<and> c \<le> 90 then c + 32 else c)"

text \<open>\<^verbatim>\<open>isspace\<close>, \<^verbatim>\<open>isdigit\<close> and \<^verbatim>\<open>isxdigit\<close> in the "C" locale.\<close>

definition isspace :: "char \<Rightarrow> bool" where
  "isspace c = (c = CHR 0x20 \<or> c = CHR 0x09 \<or> c = CHR 0x0A \<or> c = CHR 0x0B \<or> c = CHR 0x0C \<or> c = CHR 0x0D)"

definition isdigit :: "char \<Rightarrow> bool" where
  "isdigit c = (48 \<le> (of_char c :: nat) \<and> (of_char c :: nat) \<le> 57)"

definition isxdigit :: "char \<Rightarrow> bool" where
  "isxdigit c = (isdigit c
     \<or> (97 \<le> (of_char c :: nat) \<and> (of_char c :: nat) \<le> 102)
     \<or> (65 \<le> (of_char c :: nat) \<and> (of_char c :: nat) \<le> 70))"

subsection \<open>The case-insensitive comparator\<close>

text \<open>
  \<^verbatim>\<open>std::lexicographical_compare(first1, last1, first2, last2, comp)\<close>: the first position
  where \<^verbatim>\<open>comp\<close> separates the two ranges decides; a proper prefix is less.
\<close>

fun lexicographical_compare :: "('a \<Rightarrow> 'a \<Rightarrow> bool) \<Rightarrow> 'a list \<Rightarrow> 'a list \<Rightarrow> bool" where
  "lexicographical_compare cmp [] [] = False"
| "lexicographical_compare cmp [] (y # ys) = True"
| "lexicographical_compare cmp (x # xs) [] = False"
| "lexicographical_compare cmp (x # xs) (y # ys) =
     (if cmp x y then True
      else if cmp y x then False
      else lexicographical_compare cmp xs ys)"

definition CaseInsensitiveLess :: "string \<Rightarrow> string \<Rightarrow> bool" where
  "CaseInsensitiveLess s1 s2 =
     lexicographical_compare
       (\<lambda>c1 c2. tolower (char_to_int c1) < tolower (char_to_int c2)) s1 s2"

text \<open>The lowercased code sequence of a string: two strings are case variants of each
  other when they have the same one.\<close>

definition lowered :: "string \<Rightarrow> int list" where
  "lowered s = map (\<lambda>c. tolower (char_to_int c)) s"

text \<open>Equality under the comparator, as \<^verbatim>\<open>Option::operator==\<close> and \<^verbatim>\<open>std::map\<close> test it:
  neither string is less than the other.\<close>

definition ci_equal :: "string \<Rightarrow> string \<Rightarrow> bool" where
  "ci_equal a b = (\<not> CaseInsensitiveLess a b \<and> \<not> CaseInsensitiveLess b a)"

subsection \<open>Single-precision numbers and the library conversions\<close>

text \<open>
  \<^verbatim>\<open>std::stof\<close> and \<^verbatim>\<open>std::to_string(double)\<close> belong to the C++ library, not to the
  engine. They are modelled as the C standard describes \<^verbatim>\<open>strtof\<close> and \<^verbatim>\<open>printf("%f")\<close>,
  for IEEE-754 binary32 with rounding to nearest, ties to even, and with the \<^verbatim>\<open>ERANGE\<close>
  reports of glibc, which libstdc++ turns into \<^verbatim>\<open>std::out_of_range\<close>. A finite number is
  kept as the rational it denotes; the sign of a zero is not kept (no comparison sees it).
\<close>

datatype float = Finite rat | PInf | NInf | NaN

text \<open>The comparison \<^verbatim>\<open><\<close> of two floating-point numbers: false whenever one is a NaN.\<close>

fun float_less :: "float \<Rightarrow> float \<Rightarrow> bool" where
  "float_less NaN y = False"
| "float_less x NaN = False"
| "float_less (Finite a) (Finite b) = (a < b)"
| "float_less (Finite a) PInf = True"
| "float_less (Finite a) NInf = False"
| "float_less PInf y = False"
| "float_less NInf NInf = False"
| "float_less NInf y = True"

definition pow2 :: "int \<Rightarrow> rat" where
  "pow2 e = (if 0 \<le> e then 2 ^ nat e else 1 / 2 ^ nat (- e))"

definition pow10 :: "int \<Rightarrow> rat" where
  "pow10 e = (if 0 \<le> e then 10 ^ nat e else 1 / 10 ^ nat (- e))"

definition round_half_even :: "rat \<Rightarrow> int" where
  "round_half_even x =
     (let n = \<lfloor>x\<rfloor>; d = x - of_int n
      in if d < 1 / 2 then n
         else if 1 / 2 < d then n + 1
         else if even n then n else n + 1)"

text \<open>The binary exponent \<open>\<lfloor>log\<^sub>2 a\<rfloor>\<close> of a positive rational, from the bit lengths of its
  numerator and denominator.\<close>

definition ilog2 :: "rat \<Rightarrow> int" where
  "ilog2 a =
     (let (p, q) = quotient_of a; d = bitlen p - bitlen q
      in if pow2 d \<le> a then d else d - 1)"

text \<open>The nearest binary32 number (24 bits of precision, subnormal below \<open>2\<^sup>-\<^sup>1\<^sup>2\<^sup>6\<close>), with the
  exponent not bounded above: the caller looks at the overflow.\<close>

definition round_binary32 :: "rat \<Rightarrow> rat" where
  "round_binary32 a =
     (if a = 0 then 0
      else let e = max (ilog2 \<bar>a\<bar>) (- 126); ulp = pow2 (e - 23)
           in of_int (round_half_even (a / ulp)) * ulp)"

text \<open>The conversion of an \<^verbatim>\<open>int\<close> to \<^verbatim>\<open>float\<close>, which \<^verbatim>\<open>stof(v) < min\<close> applies to
  \<^verbatim>\<open>min\<close>. No 32-bit \<^verbatim>\<open>int\<close> overflows.\<close>

definition float_of_int :: "int \<Rightarrow> float" where
  "float_of_int i =
     (let r = round_binary32 (of_int i)
      in if pow2 128 \<le> r then PInf else if r \<le> - pow2 128 then NInf else Finite r)"

datatype exn = invalid_argument | out_of_range | assertion_failed

definition lower_char :: "char \<Rightarrow> char" where
  "lower_char c =
     (if 65 \<le> (of_char c :: nat) \<and> (of_char c :: nat) \<le> 90 then char_of ((of_char c :: nat) + 32) else c)"

definition digit_val :: "char \<Rightarrow> nat" where
  "digit_val c =
     (if isdigit c then of_char c - 48
      else if 97 \<le> (of_char c :: nat) then of_char c - 87
      else of_char c - 55)"

definition digits_value :: "nat \<Rightarrow> string \<Rightarrow> nat" where
  "digits_value base ds = foldl (\<lambda>n c. base * n + digit_val c) 0 ds"

text \<open>The optional exponent part that follows a mantissa: the marker (\<^verbatim>\<open>e\<close> or \<^verbatim>\<open>p\<close>, in
  lower case here), an optional sign and a non-empty run of decimal digits. A part that is
  absent or incomplete is not consumed, and the exponent is 0.\<close>

definition exponent_part :: "char \<Rightarrow> string \<Rightarrow> int" where
  "exponent_part marker s =
     (case s of
        [] \<Rightarrow> 0
      | m # r \<Rightarrow>
          if lower_char m \<noteq> marker then 0
          else let neg = (r \<noteq> [] \<and> hd r = CHR ''-'');
                   r' = (if r \<noteq> [] \<and> (hd r = CHR ''-'' \<or> hd r = CHR ''+'') then tl r else r);
                   ds = takeWhile isdigit r'
               in if ds = [] then 0
                  else if neg then - int (digits_value 10 ds) else int (digits_value 10 ds))"

text \<open>A mantissa: digits, optionally with one radix point among them. It yields the
  digits before the point, those after it, and the rest of the input.\<close>

definition mantissa :: "(char \<Rightarrow> bool) \<Rightarrow> string \<Rightarrow> string \<times> string \<times> string" where
  "mantissa is_dig s =
     (let ip = takeWhile is_dig s; r = dropWhile is_dig s
      in if r \<noteq> [] \<and> hd r = CHR ''.''
         then (ip, takeWhile is_dig (tl r), dropWhile is_dig (tl r))
         else (ip, [], r))"

datatype parsed = Number rat | Infinity bool | NotANumber

text \<open>The subject sequence of \<^verbatim>\<open>strtof\<close>: white space is skipped, then an optional sign,
  then \<^verbatim>\<open>inf\<close> or \<^verbatim>\<open>nan\<close> in any case, a hexadecimal number after \<^verbatim>\<open>0x\<close>, or a decimal
  number. Whatever follows is ignored. \<open>None\<close>: no conversion could be performed.\<close>

definition strtof_parse :: "string \<Rightarrow> parsed option" where
  "strtof_parse s =
     (let s1 = dropWhile isspace s;
          neg = (s1 \<noteq> [] \<and> hd s1 = CHR ''-'');
          s2 = (if s1 \<noteq> [] \<and> (hd s1 = CHR ''-'' \<or> hd s1 = CHR ''+'') then tl s1 else s1);
          sgn = (if neg then - 1 else 1);
          (hi, hf, hr) = mantissa isxdigit (drop 2 s2);
          (di, df, dr) = mantissa isdigit s2
      in if map lower_char (take 3 s2) = ''inf'' then Some (Infinity neg)
         else if map lower_char (take 3 s2) = ''nan'' then Some NotANumber
         else if map lower_char (take 2 s2) = ''0x'' \<and> hi @ hf \<noteq> []
         then Some (Number (sgn * of_nat (digits_value 16 (hi @ hf))
                            * pow2 (exponent_part CHR ''p'' hr - 4 * int (length hf))))
         else if di @ df \<noteq> []
         then Some (Number (sgn * of_nat (digits_value 10 (di @ df))
                            * pow10 (exponent_part CHR ''e'' dr - int (length df))))
         else None)"

text \<open>\<^verbatim>\<open>std::stof\<close>: \<^verbatim>\<open>std::invalid_argument\<close> when nothing converts, \<^verbatim>\<open>std::out_of_range\<close>
  when \<^verbatim>\<open>strtof\<close> reports \<^verbatim>\<open>ERANGE\<close> (the rounded number overflows, or it is subnormal
  and not exact).\<close>

definition stof :: "string \<Rightarrow> exn + float" where
  "stof s =
     (case strtof_parse s of
        None \<Rightarrow> Inl invalid_argument
      | Some NotANumber \<Rightarrow> Inr NaN
      | Some (Infinity neg) \<Rightarrow> Inr (if neg then NInf else PInf)
      | Some (Number a) \<Rightarrow>
          let r = round_binary32 a
          in if pow2 128 \<le> \<bar>r\<bar> then Inl out_of_range
             else if r \<noteq> a \<and> \<bar>r\<bar> < pow2 (- 126) then Inl out_of_range
             else Inr (Finite r))"

text \<open>\<^verbatim>\<open>std::to_string(double)\<close> prints with \<^verbatim>\<open>"%f"\<close>: the integer part, a point and six
  decimals, rounded to nearest. The \<^verbatim>\<open>double\<close> is given by its (finite) value.\<close>

definition digit_char :: "nat \<Rightarrow> char" where
  "digit_char d = ''0123456789'' ! d"

fun digits10 :: "nat \<Rightarrow> string" where
  "digits10 n =
     (if n < 10 then [digit_char n]
      else digits10 (n div 10) @ [digit_char (n mod 10)])"

definition to_string :: "rat \<Rightarrow> string" where
  "to_string v =
     (let n = nat (round_half_even (\<bar>v\<bar> * 1000000))
      in (if v < 0 then ''-'' else [])
         @ digits10 (n div 1000000) @ ''.''
         @ map (\<lambda>k. digit_char ((n div 10 ^ k) mod 10)) [5, 4, 3, 2, 1, 0])"

subsection \<open>Options\<close>

text \<open>The \<^verbatim>\<open>on_change\<close> actions of the file. What an action does (clearing the hash,
  resizing the transposition table, ...) happens outside this file; a call is recorded
  with the option it was given.\<close>

datatype OnChange = on_clear_hash | on_hash_size | on_logger | on_threads | on_tb_path
  | on_book1_file | on_book2_file | on_exp_enabled | on_exp_file | on_use_NNUE | on_eval_file

text \<open>The fields \<^verbatim>\<open>min\<close> and \<^verbatim>\<open>max\<close> are \<open>min_val\<close> and \<open>max_val\<close> here. No constructor
  initialises \<^verbatim>\<open>idx\<close>: it is \<open>None\<close> until \<^verbatim>\<open>operator<<\<close> assigns it. A null
  \<^verbatim>\<open>on_change\<close> is \<open>None\<close>.\<close>

record Option =
  defaultValue :: string
  currentValue :: string
  type :: string
  min_val :: int
  max_val :: int
  idx :: "nat option"
  on_change :: "OnChange option"

text \<open>\<^verbatim>\<open>Option(const char* v, OnChange f)\<close>\<close>

definition Option_string :: "string \<Rightarrow> OnChange option \<Rightarrow> Option" where
  "Option_string v f =
     \<lparr>defaultValue = v, currentValue = v, type = ''string'', min_val = 0, max_val = 0,
      idx = None, on_change = f\<rparr>"

text \<open>\<^verbatim>\<open>Option(bool v, OnChange f)\<close>\<close>

definition Option_check :: "bool \<Rightarrow> OnChange option \<Rightarrow> Option" where
  "Option_check v f =
     \<lparr>defaultValue = (if v then ''true'' else ''false''),
      currentValue = (if v then ''true'' else ''false''),
      type = ''check'', min_val = 0, max_val = 0, idx = None, on_change = f\<rparr>"

text \<open>\<^verbatim>\<open>Option(OnChange f)\<close>; with \<open>None\<close> it is the default constructor \<^verbatim>\<open>Option()\<close>.\<close>

definition Option_button :: "OnChange option \<Rightarrow> Option" where
  "Option_button f =
     \<lparr>defaultValue = [], currentValue = [], type = ''button'', min_val = 0, max_val = 0,
      idx = None, on_change = f\<rparr>"

text \<open>\<^verbatim>\<open>Option(double v, int minv, int maxv, OnChange f)\<close>\<close>

definition Option_spin :: "rat \<Rightarrow> int \<Rightarrow> int \<Rightarrow> OnChange option \<Rightarrow> Option" where
  "Option_spin v minv maxv f =
     \<lparr>defaultValue = to_string v, currentValue = to_string v, type = ''spin'',
      min_val = minv, max_val = maxv, idx = None, on_change = f\<rparr>"

text \<open>\<^verbatim>\<open>Option(const char* v, const char* cur, OnChange f)\<close>\<close>

definition Option_combo :: "string \<Rightarrow> string \<Rightarrow> OnChange option \<Rightarrow> Option" where
  "Option_combo v cur f =
     \<lparr>defaultValue = v, currentValue = cur, type = ''combo'', min_val = 0, max_val = 0,
      idx = None, on_change = f\<rparr>"

text \<open>\<^verbatim>\<open>Option::operator double()\<close>: the assertion is a branch of its own; the \<^verbatim>\<open>float\<close>
  that \<^verbatim>\<open>stof\<close> returns converts to \<^verbatim>\<open>double\<close> without change.\<close>

definition Option_double :: "Option \<Rightarrow> exn + float" where
  "Option_double opt =
     (if \<not> (type opt = ''check'' \<or> type opt = ''spin'') then Inl assertion_failed
      else if type opt = ''spin'' then stof (currentValue opt)
      else Inr (Finite (if currentValue opt = ''true'' then 1 else 0)))"

text \<open>\<^verbatim>\<open>Option::operator==(const char* s)\<close>\<close>

definition Option_equals :: "Option \<Rightarrow> string \<Rightarrow> exn + bool" where
  "Option_equals opt s =
     (if type opt \<noteq> ''combo'' then Inl assertion_failed
      else Inr (ci_equal (currentValue opt) s))"

subsection \<open>The state outside an option\<close>

text \<open>\<open>insert_order\<close> is the function-local static of \<^verbatim>\<open>Option::operator<<\<close>: one counter
  for the whole process, whichever map the option lives in. It is a \<^verbatim>\<open>size_t\<close>, taken
  as 64 bits wide; the increment wraps. \<open>notified\<close> lists the calls of \<^verbatim>\<open>on_change\<close>
  actions so far, oldest first, each with the option passed to it.\<close>

record world =
  insert_order :: nat
  notified :: "(OnChange \<times> Option) list"

definition size_t_range :: nat where
  "size_t_range = 2 ^ 64"

text \<open>\<^verbatim>\<open>Option::operator<<(const Option& o)\<close>: \<^verbatim>\<open>*this = o; idx = insert_order++;\<close>. The
  result is the new \<^verbatim>\<open>*this\<close> and the new counter; what \<^verbatim>\<open>*this\<close> held is lost.\<close>

definition Option_shl :: "Option \<Rightarrow> nat \<Rightarrow> Option \<times> nat" where
  "Option_shl opt n = (opt\<lparr>idx := Some n\<rparr>, (n + 1) mod size_t_range)"

subsection \<open>The map of options\<close>

text \<open>An \<^verbatim>\<open>OptionsMap\<close> is kept as the list of its entries in iteration order, which is
  the order of \<^verbatim>\<open>CaseInsensitiveLess\<close> on the keys.\<close>

type_synonym OptionsMap = "(string \<times> Option) list"

text \<open>\<^verbatim>\<open>std::map::find\<close>, and \<^verbatim>\<open>count\<close> from it: a key is found where neither it nor
  the stored key is less than the other.\<close>

fun om_find :: "OptionsMap \<Rightarrow> string \<Rightarrow> (string \<times> Option) option" where
  "om_find [] k = None"
| "om_find ((k', opt) # om) k =
     (if CaseInsensitiveLess k k' then None
      else if CaseInsensitiveLess k' k then om_find om k
      else Some (k', opt))"

definition om_count :: "OptionsMap \<Rightarrow> string \<Rightarrow> nat" where
  "om_count om k = (case om_find om k of None \<Rightarrow> 0 | Some e \<Rightarrow> 1)"

text \<open>The effect on the map of storing through the reference that \<^verbatim>\<open>om[k]\<close> returns:
  \<^verbatim>\<open>operator[]\<close> inserts an entry for an absent key at its place in the order, and
  otherwise leads to the entry that is there, whose key stays as it was first spelled.\<close>

fun om_store :: "OptionsMap \<Rightarrow> string \<Rightarrow> Option \<Rightarrow> OptionsMap" where
  "om_store [] k v = [(k, v)]"
| "om_store ((k', opt) # om) k v =
     (if CaseInsensitiveLess k k' then (k, v) # (k', opt) # om
      else if CaseInsensitiveLess k' k then (k', opt) # om_store om k v
      else (k', v) # om)"

text \<open>A declaration \<^verbatim>\<open>om[k] << opt\<close>, as in \<^verbatim>\<open>init\<close>.\<close>

definition declare_option :: "OptionsMap \<Rightarrow> string \<Rightarrow> Option \<Rightarrow> nat \<Rightarrow> OptionsMap \<times> nat" where
  "declare_option om k opt n = (om_store om k (fst (Option_shl opt n)), snd (Option_shl opt n))"

text \<open>A run of declarations, one after the other, as the body of \<^verbatim>\<open>init\<close> is.\<close>

fun declare_all :: "OptionsMap \<Rightarrow> (string \<times> Option) list \<Rightarrow> nat \<Rightarrow> OptionsMap \<times> nat" where
  "declare_all om [] n = (om, n)"
| "declare_all om ((k, opt) # ds) n =
     declare_all (fst (declare_option om k opt n)) ds (snd (declare_option om k opt n))"

subsection \<open>Writing a value: \<^verbatim>\<open>Option::operator=(const string& v)\<close>\<close>

text \<open>\<^verbatim>\<open>while (ss >> token)\<close> on \<^verbatim>\<open>std::istringstream ss(defaultValue)\<close>: the maximal runs
  of characters that are not white space, in order. \<open>tok\<close> is the run being read.\<close>

fun extract_tokens :: "string \<Rightarrow> string \<Rightarrow> string list" where
  "extract_tokens tok [] = (if tok = [] then [] else [tok])"
| "extract_tokens tok (c # cs) =
     (if isspace c then (if tok = [] then extract_tokens [] cs else tok # extract_tokens [] cs)
      else extract_tokens (tok @ [c]) cs)"

definition tokens :: "string \<Rightarrow> string list" where
  "tokens s = extract_tokens [] s"

text \<open>The test \<^verbatim>\<open>stof(v) < min || stof(v) > max\<close>. Both calls of \<^verbatim>\<open>stof\<close> read the same
  string, so they throw or return alike; the bounds are converted to \<^verbatim>\<open>float\<close>.\<close>

definition spin_out_of_bounds :: "Option \<Rightarrow> string \<Rightarrow> exn + bool" where
  "spin_out_of_bounds opt v =
     (case stof v of
        Inl e \<Rightarrow> Inl e
      | Inr x \<Rightarrow> Inr (float_less x (float_of_int (min_val opt))
                     \<or> float_less (float_of_int (max_val opt)) x))"

text \<open>The end of the operator: \<^verbatim>\<open>if (type != "button") currentValue = v;\<close> and then
  \<^verbatim>\<open>if (on_change) on_change(*this);\<close>.\<close>

definition store_and_notify :: "Option \<Rightarrow> string \<Rightarrow> world \<Rightarrow> Option \<times> world" where
  "store_and_notify opt v w =
     (let opt' = (if type opt \<noteq> ''button'' then opt\<lparr>currentValue := v\<rparr> else opt)
      in (opt', case on_change opt' of
                  None \<Rightarrow> w
                | Some f \<Rightarrow> w\<lparr>notified := notified w @ [(f, opt')]\<rparr>))"

text \<open>The operator itself. Its first branch is \<^verbatim>\<open>assert(!type.empty())\<close>; every
  constructor sets a type. \<open>Inl e\<close>: the assertion fails or \<^verbatim>\<open>stof\<close> throws \<open>e\<close>, before
  anything has been changed. \<open>Inr (opt', w')\<close>: it returns, with the option and the state
  outside it as they are then. The temporary \<^verbatim>\<open>comboMap\<close> is filled by
  \<^verbatim>\<open>comboMap[token] << Option()\<close> for each token in turn.\<close>

definition Option_assign :: "Option \<Rightarrow> string \<Rightarrow> world \<Rightarrow> exn + Option \<times> world" where
  "Option_assign opt v w =
     (if type opt = [] then Inl assertion_failed
      else if type opt \<noteq> ''button'' \<and> v = [] then Inr (opt, w)
      else if type opt = ''check'' \<and> v \<noteq> ''true'' \<and> v \<noteq> ''false'' then Inr (opt, w)
      else case (if type opt = ''spin'' then spin_out_of_bounds opt v else Inr False) of
             Inl e \<Rightarrow> Inl e
           | Inr True \<Rightarrow> Inr (opt, w)
           | Inr False \<Rightarrow>
               if type opt = ''combo''
               then let filled = declare_all []
                                   (map (\<lambda>token. (token, Option_button None))
                                        (tokens (defaultValue opt)))
                                   (insert_order w);
                        comboMap = fst filled;
                        w' = w\<lparr>insert_order := snd filled\<rparr>
                    in if om_count comboMap v = 0 \<or> v = ''var'' then Inr (opt, w')
                       else Inr (store_and_notify opt v w')
               else Inr (store_and_notify opt v w))"

text \<open>Writes one after the other to the same option. An exception ends the run: nothing
  in the file catches it.\<close>

fun assign_all :: "Option \<Rightarrow> string list \<Rightarrow> world \<Rightarrow> exn + Option \<times> world" where
  "assign_all opt [] w = Inr (opt, w)"
| "assign_all opt (v # vs) w =
     (case Option_assign opt v w of
        Inl e \<Rightarrow> Inl e
      | Inr (opt', w') \<Rightarrow> assign_all opt' vs w')"

text \<open>A write \<^verbatim>\<open>om[name] = v\<close> to an entry of a map: \<^verbatim>\<open>operator[]\<close> leads to the entry
  (a fresh \<^verbatim>\<open>Option()\<close> when the name is absent), and the operator above writes to it.\<close>

definition om_assign :: "OptionsMap \<Rightarrow> string \<Rightarrow> string \<Rightarrow> world \<Rightarrow> exn + OptionsMap \<times> world" where
  "om_assign om name v w =
     (let opt = (case om_find om name of None \<Rightarrow> Option_button None | Some e \<Rightarrow> snd e)
      in case Option_assign opt v w of
           Inl e \<Rightarrow> Inl e
         | Inr (opt', w') \<Rightarrow> Inr (om_store om name opt', w'))"

fun om_assign_all :: "OptionsMap \<Rightarrow> (string \<times> string) list \<Rightarrow> world \<Rightarrow> exn + OptionsMap \<times> world" where
  "om_assign_all om [] w = Inr (om, w)"
| "om_assign_all om ((name, v) # ws) w =
     (case om_assign om name v w of
        Inl e \<Rightarrow> Inl e
      | Inr (om', w') \<Rightarrow> om_assign_all om' ws w')"

subsection \<open>Printing: \<^verbatim>\<open>operator<<(std::ostream&, const OptionsMap&)\<close>\<close>

text \<open>The inner loop: the first entry, in the order of the map, whose \<^verbatim>\<open>idx\<close> is the one
  looked for; the \<^verbatim>\<open>break\<close> stops at it.\<close>

fun first_with_idx :: "OptionsMap \<Rightarrow> nat \<Rightarrow> (string \<times> Option) option" where
  "first_with_idx [] i = None"
| "first_with_idx ((k, opt) # om) i =
     (if idx opt = Some i then Some (k, opt) else first_with_idx om i)"

text \<open>The outer loop runs \<^verbatim>\<open>idx\<close> from 0 to \<^verbatim>\<open>om.size() - 1\<close>. The result lists the entries
  for which a line is written, in the order of the lines; the line of an entry is made of
  its key and of fields of its option only.\<close>

definition print_order :: "OptionsMap \<Rightarrow> (string \<times> Option) list" where
  "print_order om =
     concat (map (\<lambda>i. case first_with_idx om i of None \<Rightarrow> [] | Some e \<Rightarrow> [e])
                 [0..<length om])"

text \<open>The key and the \<^verbatim>\<open>idx\<close> of each entry.\<close>

definition ranks :: "OptionsMap \<Rightarrow> (string \<times> nat option) list" where
  "ranks om = map (\<lambda>e. (fst e, idx (snd e))) om"

subsection \<open>What the specification says of a write\<close>


text \<open>The current value of a \<^verbatim>\<open>spin\<close> option, read as a number through
  \<^verbatim>\<open>operator double()\<close>, lies between \<^verbatim>\<open>min\<close> and \<^verbatim>\<open>max\<close>.\<close>

definition spin_in_range :: "Option \<Rightarrow> bool" where
  "spin_in_range opt =
     (case Option_double opt of
        Inr (Finite x) \<Rightarrow> of_int (min_val opt) \<le> x \<and> x \<le> of_int (max_val opt)
      | _ \<Rightarrow> False)"

text \<open>The current value of a \<^verbatim>\<open>combo\<close> option matches one of the tokens of its default
  value.\<close>

definition combo_in_list :: "Option \<Rightarrow> bool" where
  "combo_in_list opt = (\<exists>t \<in> set (tokens (defaultValue opt)). ci_equal t (currentValue opt))"

section \<open>Properties\<close>

subsection \<open>The comparator and lookups\<close>

lemma lexicographical_compare_less:
  "lexicographical_compare (<) (xs :: int list) ys = (xs < ys)"
  by (induction "(<) :: int \<Rightarrow> int \<Rightarrow> bool" xs ys rule: lexicographical_compare.induct) auto

lemma CaseInsensitiveLess_lowered:
  "CaseInsensitiveLess s1 s2 = (lowered s1 < lowered s2)"
proof -
  have "lexicographical_compare (\<lambda>c1 c2. tolower (char_to_int c1) < tolower (char_to_int c2)) s1 s2
        = lexicographical_compare (<) (lowered s1) (lowered s2)"
    unfolding lowered_def
    by (induction "(\<lambda>c1 c2. tolower (char_to_int c1) < tolower (char_to_int c2))" s1 s2
        rule: lexicographical_compare.induct) auto
  then show ?thesis
    by (simp add: CaseInsensitiveLess_def lexicographical_compare_less)
qed

lemma ci_equal_lowered: "ci_equal a b = (lowered a = lowered b)"
  by (auto simp: ci_equal_def CaseInsensitiveLess_lowered)

lemma lowered_nth:
  "(lowered s1 = lowered s2) =
   (length s1 = length s2 \<and>
    (\<forall>i<length s1. tolower (char_to_int (s1 ! i)) = tolower (char_to_int (s2 ! i))))"
  by (auto simp: lowered_def list_eq_iff_nth_eq)

lemma om_find_cong: "lowered a = lowered b \<Longrightarrow> om_find om a = om_find om b"
  by (induction om) (auto simp: CaseInsensitiveLess_lowered)

lemma om_find_store_same:
  "\<exists>k0. om_find (om_store om k v) k = Some (k0, v) \<and> lowered k0 = lowered k"
  by (induction om) (auto simp: CaseInsensitiveLess_lowered)

text \<open>
  Claim C6. The comparator holds two strings equal (neither less than the other) exactly
  when they have the same length and agree character by character after lowercasing.
  Hence, after a name is declared, a lookup of any case variant of it finds the entry
  just declared, as the lookup of the name itself does.
\<close>

theorem CaseInsensitiveLess_equal_lookup:
  "((\<not> CaseInsensitiveLess s1 s2 \<and> \<not> CaseInsensitiveLess s2 s1) \<longleftrightarrow>
      (length s1 = length s2 \<and>
       (\<forall>i<length s1. tolower (char_to_int (s1 ! i)) = tolower (char_to_int (s2 ! i)))))
   \<and> (lowered name' = lowered name \<longrightarrow>
        om_find (fst (declare_option om name opt n)) name'
          = om_find (fst (declare_option om name opt n)) name
        \<and> (\<exists>k. om_find (fst (declare_option om name opt n)) name'
                  = Some (k, opt\<lparr>idx := Some n\<rparr>)
               \<and> lowered k = lowered name))"
proof (intro conjI impI)
  show "(\<not> CaseInsensitiveLess s1 s2 \<and> \<not> CaseInsensitiveLess s2 s1) \<longleftrightarrow>
      (length s1 = length s2 \<and>
       (\<forall>i<length s1. tolower (char_to_int (s1 ! i)) = tolower (char_to_int (s2 ! i))))"
    using ci_equal_lowered [of s1 s2] by (simp only: ci_equal_def lowered_nth)
next
  assume "lowered name' = lowered name"
  then show same: "om_find (fst (declare_option om name opt n)) name'
          = om_find (fst (declare_option om name opt n)) name"
    by (rule om_find_cong)
  from om_find_store_same [of om name "opt\<lparr>idx := Some n\<rparr>"]
  show "\<exists>k. om_find (fst (declare_option om name opt n)) name' = Some (k, opt\<lparr>idx := Some n\<rparr>)
               \<and> lowered k = lowered name"
    unfolding same by (simp add: declare_option_def Option_shl_def)
qed

theorem CaseInsensitiveLess_equal_lookup_witness:
  "(\<not> CaseInsensitiveLess ''Threads'' ''THREADS'' \<and> \<not> CaseInsensitiveLess ''THREADS'' ''Threads'')
   \<and> om_find (fst (declare_option [] ''Threads'' (Option_check False None) 0)) ''ThReAdS''
       = Some (''Threads'', (Option_check False None)\<lparr>idx := Some 0\<rparr>)"
proof -
  note inst = CaseInsensitiveLess_equal_lookup
    [of "''Threads''" "''THREADS''" "''ThReAdS''" "''Threads''" "[]" "Option_check False None" 0]
  have l: "lowered ''ThReAdS'' = lowered ''Threads''"
    by (simp add: lowered_def tolower_def char_to_int_def)
  have u: "lowered ''Threads'' = lowered ''THREADS''"
    by (simp add: lowered_def tolower_def char_to_int_def)
  have f: "om_find (fst (declare_option [] ''Threads'' (Option_check False None) 0)) ''Threads''
       = Some (''Threads'', (Option_check False None)\<lparr>idx := Some 0\<rparr>)"
    by (simp add: declare_option_def Option_shl_def CaseInsensitiveLess_lowered)
  from inst have "\<not> CaseInsensitiveLess ''Threads'' ''THREADS'' \<and> \<not> CaseInsensitiveLess ''THREADS'' ''Threads''"
    using u by (simp only: lowered_nth [symmetric])
  moreover from inst l
  have "om_find (fst (declare_option [] ''Threads'' (Option_check False None) 0)) ''ThReAdS''
          = om_find (fst (declare_option [] ''Threads'' (Option_check False None) 0)) ''Threads''"
    by blast
  ultimately show ?thesis using f by simp
qed

subsection \<open>Writes, case by case\<close>

lemma extract_tokens_nonempty: "[] \<notin> set (extract_tokens tok s)"
  by (induction s arbitrary: tok) auto

lemma tokens_nonempty: "t \<in> set (tokens s) \<Longrightarrow> t \<noteq> []"
  using extract_tokens_nonempty [of "[]" s] by (auto simp: tokens_def)

lemma lowered_Nil: "(lowered t = lowered []) = (t = [])"
  by (simp add: lowered_def)

lemma om_find_store_None:
  "(om_find (om_store om k x) v = None) = (om_find om v = None \<and> lowered k \<noteq> lowered v)"
proof (induction om)
  case Nil
  show ?case by (auto simp: CaseInsensitiveLess_lowered)
next
  case (Cons e om)
  obtain a b where e: "e = (a, b)" by (cases e)
  consider "lowered k < lowered a" | "lowered a < lowered k" | "lowered k = lowered a"
    using linorder_less_linear by blast
  then show ?case
  proof cases
    case 1
    then show ?thesis using e by (auto simp: CaseInsensitiveLess_lowered)
  next
    case 2
    then show ?thesis using e Cons.IH by (auto simp: CaseInsensitiveLess_lowered)
  next
    case 3
    then show ?thesis using e by (auto simp: CaseInsensitiveLess_lowered)
  qed
qed

lemma om_find_declare_all_None:
  "(om_find (fst (declare_all om ds n)) v = None)
     = (om_find om v = None \<and> (\<forall>d \<in> set ds. lowered (fst d) \<noteq> lowered v))"
  by (induction om ds n rule: declare_all.induct)
     (auto simp: om_find_store_None declare_option_def)

lemma snd_declare_all:
  "n < size_t_range \<Longrightarrow> snd (declare_all om ds n) = (n + length ds) mod size_t_range"
proof (induction om ds n rule: declare_all.induct)
  case (1 om n)
  then show ?case by simp
next
  case (2 om k opt ds n)
  have "(n + 1) mod size_t_range < size_t_range"
    by (simp add: size_t_range_def)
  with 2 show ?case
    by (simp add: declare_option_def Option_shl_def mod_add_left_eq)
qed

lemma om_count_combo:
  "(om_count (fst (declare_all [] (map (\<lambda>token. (token, Option_button None)) ts) n)) v = 0)
     = (\<not> (\<exists>t \<in> set ts. ci_equal t v))"
proof -
  have "(om_count (fst (declare_all [] (map (\<lambda>token. (token, Option_button None)) ts) n)) v = 0)
        = (om_find (fst (declare_all [] (map (\<lambda>token. (token, Option_button None)) ts) n)) v = None)"
    by (simp add: om_count_def split: option.split)
  then show ?thesis
    by (auto simp: om_find_declare_all_None ci_equal_lowered)
qed

lemma store_and_notify_value:
  "type opt \<noteq> ''button'' \<Longrightarrow>
   store_and_notify opt v w =
     (opt\<lparr>currentValue := v\<rparr>,
      w\<lparr>notified := notified w @ (case on_change opt of None \<Rightarrow> [] | Some f \<Rightarrow> [(f, opt\<lparr>currentValue := v\<rparr>)])\<rparr>)"
  by (simp add: store_and_notify_def Let_def split: option.split)


lemma Option_assign_combo:
  "type opt = ''combo'' \<Longrightarrow>
   Option_assign opt v w =
     (if v = [] then Inr (opt, w)
      else if (\<exists>t \<in> set (tokens (defaultValue opt)). ci_equal t v) \<and> v \<noteq> ''var''
      then Inr (store_and_notify opt v
                 (w\<lparr>insert_order := snd (declare_all []
                       (map (\<lambda>token. (token, Option_button None)) (tokens (defaultValue opt)))
                       (insert_order w))\<rparr>))
      else Inr (opt, w\<lparr>insert_order := snd (declare_all []
                       (map (\<lambda>token. (token, Option_button None)) (tokens (defaultValue opt)))
                       (insert_order w))\<rparr>))"
  by (simp add: Option_assign_def Let_def om_count_combo)

lemma Option_assign_button:
  "type opt = ''button'' \<Longrightarrow> Option_assign opt v w = Inr (store_and_notify opt v w)"
  by (simp add: Option_assign_def)

lemma Option_assign_check:
  "type opt = ''check'' \<Longrightarrow>
   Option_assign opt v w =
     (if v = ''true'' \<or> v = ''false'' then Inr (store_and_notify opt v w) else Inr (opt, w))"
  by (auto simp: Option_assign_def)

lemma Option_assign_spin:
  "type opt = ''spin'' \<Longrightarrow>
   Option_assign opt v w =
     (if v = [] then Inr (opt, w)
      else case stof v of
             Inl e \<Rightarrow> Inl e
           | Inr x \<Rightarrow> if float_less x (float_of_int (min_val opt))
                          \<or> float_less (float_of_int (max_val opt)) x
                       then Inr (opt, w) else Inr (store_and_notify opt v w))"
  by (simp add: Option_assign_def spin_out_of_bounds_def split: sum.split)

lemma Option_assign_other:
  "type opt \<noteq> [] \<Longrightarrow> type opt \<noteq> ''button'' \<Longrightarrow> type opt \<noteq> ''check'' \<Longrightarrow>
   type opt \<noteq> ''spin'' \<Longrightarrow> type opt \<noteq> ''combo'' \<Longrightarrow>
   Option_assign opt v w = (if v = [] then Inr (opt, w) else Inr (store_and_notify opt v w))"
  by (simp add: Option_assign_def)

subsection \<open>Evaluations used by the examples\<close>


lemma stof_0: "stof ''0'' = Inr (Finite 0)"
  by code_simp

lemma stof_64: "stof ''64'' = Inr (Finite 64)"
  by code_simp

lemma stof_nan: "stof ''nan'' = Inr NaN"
  by code_simp

lemma float_of_int_1: "float_of_int 1 = Finite 1"
  by code_simp

lemma float_of_int_MaxHashMB: "float_of_int 33554432 = Finite 33554432"
  by code_simp

lemma tokens_Analysis_Contempt:
  "tokens ''Both var Off var White var Black var Both''
     = [''Both'', ''var'', ''Off'', ''var'', ''White'', ''var'', ''Black'', ''var'', ''Both'']"
  by (simp add: tokens_def isspace_def)

declare digits10.simps [simp del]

lemma digits10_small: "n < 10 \<Longrightarrow> digits10 n = [digit_char n]"
  by (subst digits10.simps) simp

lemma digits10_large: "10 \<le> n \<Longrightarrow> digits10 n = digits10 (n div 10) @ [digit_char (n mod 10)]"
  by (subst digits10.simps) simp

lemma to_string_16: "to_string 16 = ''16.000000''"
  by (simp add: to_string_def round_half_even_def Let_def digits10_small digits10_large digit_char_def)

lemma to_string_0: "to_string 0 = ''0.000000''"
  by (simp add: to_string_def round_half_even_def Let_def digits10_small digits10_large digit_char_def)

lemma to_string_16777218: "to_string 16777218 = ''16777218.000000''"
  by (simp add: to_string_def round_half_even_def Let_def digits10_small digits10_large digit_char_def)

lemmas strtof_defs = strtof_parse_def mantissa_def isdigit_def isxdigit_def isspace_def
  lower_char_def digits_value_def digit_val_def exponent_part_def pow10_def pow2_def Let_def

lemma parse_16_000000: "strtof_parse ''16.000000'' = Some (Number 16)"
  by (simp add: strtof_defs)

lemma parse_0_000000: "strtof_parse ''0.000000'' = Some (Number 0)"
  by (simp add: strtof_defs)

lemma parse_16777218_000000: "strtof_parse ''16777218.000000'' = Some (Number 16777218)"
  by (simp add: strtof_defs)

lemma parse_16777216: "strtof_parse ''16777216'' = Some (Number 16777216)"
  by (simp add: strtof_defs)

lemma round_16: "round_binary32 16 = 16"
  by code_simp

lemma round_16777218: "round_binary32 16777218 = 16777218"
  by code_simp

lemma round_16777216: "round_binary32 16777216 = 16777216"
  by code_simp

lemma stof_16_000000: "stof ''16.000000'' = Inr (Finite 16)"
  by (simp add: stof_def parse_16_000000 round_16 pow2_def)

lemma stof_0_000000: "stof ''0.000000'' = Inr (Finite 0)"
  by (simp add: stof_def parse_0_000000 round_binary32_def pow2_def)

lemma stof_16777218_000000: "stof ''16777218.000000'' = Inr (Finite 16777218)"
  by (simp add: stof_def parse_16777218_000000 round_16777218 pow2_def)

lemma stof_16777216: "stof ''16777216'' = Inr (Finite 16777216)"
  by (simp add: stof_def parse_16777216 round_16777216 pow2_def)

lemma float_of_int_16777217: "float_of_int 16777217 = Finite 16777216"
  by code_simp

lemma float_of_int_16777219: "float_of_int 16777219 = Finite 16777220"
  by code_simp

subsection \<open>Rejected writes\<close>




subsection \<open>Accepted writes and the action\<close>



subsection \<open>Writes to a combo\<close>

text \<open>
  Claim C3. A write to a \<^verbatim>\<open>combo\<close> option is accepted (the value is stored and the action
  called) exactly when the value matches, under the case-insensitive comparator, a token of
  the default value split at white space, and is not the string \<^verbatim>\<open>var\<close>; otherwise the
  option is left as it was. In particular a write of \<^verbatim>\<open>var\<close> leaves it as it was.
\<close>

theorem combo_write_accepted_iff:
  assumes "type opt = ''combo''"
  shows "(\<exists>n. Option_assign opt v w =
            (if (\<exists>t \<in> set (tokens (defaultValue opt)). ci_equal t v) \<and> v \<noteq> ''var''
             then Inr (opt\<lparr>currentValue := v\<rparr>,
                       w\<lparr>insert_order := n,
                         notified := notified w @ (case on_change opt of None \<Rightarrow> []
                                                   | Some f \<Rightarrow> [(f, opt\<lparr>currentValue := v\<rparr>)])\<rparr>)
             else Inr (opt, w\<lparr>insert_order := n\<rparr>)))
         \<and> (\<exists>n. Option_assign opt ''var'' w = Inr (opt, w\<lparr>insert_order := n\<rparr>))"
proof
  show "\<exists>n. Option_assign opt v w =
            (if (\<exists>t \<in> set (tokens (defaultValue opt)). ci_equal t v) \<and> v \<noteq> ''var''
             then Inr (opt\<lparr>currentValue := v\<rparr>,
                       w\<lparr>insert_order := n,
                         notified := notified w @ (case on_change opt of None \<Rightarrow> []
                                                   | Some f \<Rightarrow> [(f, opt\<lparr>currentValue := v\<rparr>)])\<rparr>)
             else Inr (opt, w\<lparr>insert_order := n\<rparr>))"
  proof (cases "v = []")
    case True
    have "\<not> (\<exists>t \<in> set (tokens (defaultValue opt)). ci_equal t [])"
      using tokens_nonempty [of _ "defaultValue opt"] by (auto simp: ci_equal_lowered lowered_Nil)
    with True assms show ?thesis
      by (intro exI [of _ "insert_order w"]) (simp add: Option_assign_combo)
  next
    case False
    with assms show ?thesis
      by (intro exI [of _ "snd (declare_all []
            (map (\<lambda>token. (token, Option_button None)) (tokens (defaultValue opt)))
            (insert_order w))"]) (simp add: Option_assign_combo store_and_notify_value)
  qed
  from assms show "\<exists>n. Option_assign opt ''var'' w = Inr (opt, w\<lparr>insert_order := n\<rparr>)"
    by (intro exI [of _ "snd (declare_all []
          (map (\<lambda>token. (token, Option_button None)) (tokens (defaultValue opt)))
          (insert_order w))"]) (simp add: Option_assign_combo)
qed

theorem combo_write_accepted_iff_witness:
  "type (Option_combo ''Both var Off var White var Black var Both'' ''Both'' None) = ''combo''
   \<and> (\<exists>n. Option_assign (Option_combo ''Both var Off var White var Black var Both'' ''Both'' None)
             ''black'' \<lparr>insert_order = 40, notified = []\<rparr>
           = Inr ((Option_combo ''Both var Off var White var Black var Both'' ''Both'' None)
                     \<lparr>currentValue := ''black''\<rparr>,
                  \<lparr>insert_order = n, notified = []\<rparr>))"
proof -
  have t: "type (Option_combo ''Both var Off var White var Black var Both'' ''Both'' None) = ''combo''"
    by (simp add: Option_combo_def)
  have d: "defaultValue (Option_combo ''Both var Off var White var Black var Both'' ''Both'' None)
             = ''Both var Off var White var Black var Both''"
    by (simp add: Option_combo_def)
  have e: "ci_equal ''Black'' ''black''"
    by (simp add: ci_equal_lowered lowered_def tolower_def char_to_int_def)
  have m: "\<exists>t \<in> set (tokens (defaultValue (Option_combo ''Both var Off var White var Black var Both'' ''Both'' None))).
              ci_equal t ''black''"
    using e by (simp add: d tokens_Analysis_Contempt)
  have h: "on_change (Option_combo ''Both var Off var White var Black var Both'' ''Both'' None) = None"
    by (simp add: Option_combo_def)
  from combo_write_accepted_iff [OF t, of "''black''" "\<lparr>insert_order = 40, notified = []\<rparr>"]
  show ?thesis using t m h by simp
qed

text \<open>
  Claim C9. When \<^verbatim>\<open>var\<close> is among the tokens of a \<^verbatim>\<open>combo\<close> option, a write of a case
  variant of \<^verbatim>\<open>var\<close> other than \<^verbatim>\<open>var\<close> itself is accepted: it is stored and the action is
  called. The membership test is case-insensitive, the exclusion of \<^verbatim>\<open>var\<close> is not.
\<close>

theorem combo_var_case_variant_accepted:
  assumes "type opt = ''combo''" and "''var'' \<in> set (tokens (defaultValue opt))"
    and "lowered v = lowered ''var''" and "v \<noteq> ''var''"
  shows "\<exists>n. Option_assign opt v w =
           Inr (opt\<lparr>currentValue := v\<rparr>,
                w\<lparr>insert_order := n,
                  notified := notified w @ (case on_change opt of None \<Rightarrow> []
                                            | Some f \<Rightarrow> [(f, opt\<lparr>currentValue := v\<rparr>)])\<rparr>)"
proof -
  from assms(3) have "v \<noteq> []" by (auto simp: lowered_def)
  moreover from assms(2,3) have "\<exists>t \<in> set (tokens (defaultValue opt)). ci_equal t v"
    by (auto simp: ci_equal_lowered)
  ultimately show ?thesis using assms(1,4)
    by (intro exI [of _ "snd (declare_all []
          (map (\<lambda>token. (token, Option_button None)) (tokens (defaultValue opt)))
          (insert_order w))"]) (simp add: Option_assign_combo store_and_notify_value)
qed

theorem combo_var_case_variant_accepted_witness:
  "''var'' \<in> set (tokens (defaultValue (Option_combo ''Both var Off var White var Black var Both'' ''Both'' (Some on_logger))))
   \<and> lowered ''VAR'' = lowered ''var'' \<and> ''VAR'' \<noteq> ''var''
   \<and> (\<exists>n. Option_assign (Option_combo ''Both var Off var White var Black var Both'' ''Both'' (Some on_logger))
             ''VAR'' \<lparr>insert_order = 40, notified = []\<rparr>
           = Inr ((Option_combo ''Both var Off var White var Black var Both'' ''Both'' (Some on_logger))
                     \<lparr>currentValue := ''VAR''\<rparr>,
                  \<lparr>insert_order = n,
                   notified = [(on_logger, (Option_combo ''Both var Off var White var Black var Both'' ''Both'' (Some on_logger))
                     \<lparr>currentValue := ''VAR''\<rparr>)]\<rparr>))"
proof -
  have t: "type (Option_combo ''Both var Off var White var Black var Both'' ''Both'' (Some on_logger)) = ''combo''"
    by (simp add: Option_combo_def)
  have d: "defaultValue (Option_combo ''Both var Off var White var Black var Both'' ''Both'' (Some on_logger))
             = ''Both var Off var White var Black var Both''"
    by (simp add: Option_combo_def)
  have m: "''var'' \<in> set (tokens (defaultValue (Option_combo ''Both var Off var White var Black var Both'' ''Both'' (Some on_logger))))"
    by (simp add: d tokens_Analysis_Contempt)
  have l: "lowered ''VAR'' = lowered ''var''"
    by (simp add: lowered_def tolower_def char_to_int_def)
  have n: "''VAR'' \<noteq> ''var''" by simp
  have h: "on_change (Option_combo ''Both var Off var White var Black var Both'' ''Both'' (Some on_logger)) = Some on_logger"
    by (simp add: Option_combo_def)
  from combo_var_case_variant_accepted [OF t m l n, of "\<lparr>insert_order = 40, notified = []\<rparr>"]
  show ?thesis using m l h by simp
qed

lemma combo_write_keeps_in_list:
  assumes "type opt = ''combo''" and "combo_in_list opt"
  shows "\<exists>opt' w'. Option_assign opt v w = Inr (opt', w') \<and> type opt' = ''combo''
           \<and> defaultValue opt' = defaultValue opt \<and> combo_in_list opt'"
  using assms
  by (auto simp: Option_assign_combo store_and_notify_value combo_in_list_def)

lemma ci_equal_eval:
  "\<not> ci_equal ''Both'' ''Purple''" "\<not> ci_equal ''var'' ''Purple''" "\<not> ci_equal ''Off'' ''Purple''"
  "\<not> ci_equal ''White'' ''Purple''" "\<not> ci_equal ''Black'' ''Purple''"
  "ci_equal ''Both'' ''Both''" "ci_equal ''Black'' ''black''"
  by (simp_all add: ci_equal_lowered lowered_def tolower_def char_to_int_def)

text \<open>
  Claim C5, as amended. When the current value of a \<^verbatim>\<open>combo\<close> option matches a token of
  its default value, every run of writes returns, and afterwards the current value still
  matches a token of the same default value.
\<close>

theorem combo_value_stays_in_list:
  assumes "type opt = ''combo''" and "combo_in_list opt"
  shows "\<exists>opt' w'. assign_all opt vs w = Inr (opt', w') \<and> type opt' = ''combo''
           \<and> defaultValue opt' = defaultValue opt \<and> combo_in_list opt'"
  using assms
proof (induction vs arbitrary: opt w)
  case Nil
  then show ?case by simp
next
  case (Cons v vs)
  from combo_write_keeps_in_list [OF Cons.prems, of v w]
  obtain opt1 w1 where s: "Option_assign opt v w = Inr (opt1, w1)" "type opt1 = ''combo''"
    "defaultValue opt1 = defaultValue opt" "combo_in_list opt1"
    by blast
  from Cons.IH [OF s(2) s(4), of w1] s(1,3) show ?case
    by auto
qed

theorem combo_value_stays_in_list_witness:
  "type (Option_combo ''Both var Off var White var Black var Both'' ''Both'' None) = ''combo''
   \<and> combo_in_list (Option_combo ''Both var Off var White var Black var Both'' ''Both'' None)
   \<and> (\<exists>opt' w'. assign_all (Option_combo ''Both var Off var White var Black var Both'' ''Both'' None)
                    [''black'', ''Purple''] \<lparr>insert_order = 40, notified = []\<rparr> = Inr (opt', w')
                 \<and> combo_in_list opt')"
proof -
  have t: "type (Option_combo ''Both var Off var White var Black var Both'' ''Both'' None) = ''combo''"
    by (simp add: Option_combo_def)
  have c: "combo_in_list (Option_combo ''Both var Off var White var Black var Both'' ''Both'' None)"
    by (simp add: combo_in_list_def Option_combo_def tokens_Analysis_Contempt ci_equal_eval)
  from combo_value_stays_in_list [OF t c, of "[''black'', ''Purple'']" "\<lparr>insert_order = 40, notified = []\<rparr>"]
  show ?thesis using t c by blast
qed

text \<open>
  Claim C5, as stated, holds of every \<^verbatim>\<open>combo\<close> option from its declaration on. The
  constructor stores the initial value it is given without looking at the tokens.
\<close>

theorem combo_declared_outside_list:
  "\<not> combo_in_list (Option_combo ''Both var Off var White var Black var Both'' ''Purple'' None)"
  by (simp add: combo_in_list_def Option_combo_def tokens_Analysis_Contempt ci_equal_eval)

subsection \<open>Writes to a spin\<close>

lemma spin_write_keeps_in_range:
  assumes "type opt = ''spin''"
    and "float_of_int (min_val opt) = Finite (of_int (min_val opt))"
    and "float_of_int (max_val opt) = Finite (of_int (max_val opt))"
    and "spin_in_range opt" and "stof v \<noteq> Inr NaN"
    and "Option_assign opt v w = Inr (opt', w')"
  shows "type opt' = ''spin'' \<and> min_val opt' = min_val opt \<and> max_val opt' = max_val opt
         \<and> spin_in_range opt'"
proof (cases "v = []")
  case True
  with assms show ?thesis by (simp add: Option_assign_spin)
next
  case False
  from assms(1,6) False obtain x where x: "stof v = Inr x"
    by (cases "stof v") (auto simp: Option_assign_spin)
  show ?thesis
  proof (cases "float_less x (float_of_int (min_val opt)) \<or> float_less (float_of_int (max_val opt)) x")
    case True
    with assms x False show ?thesis by (simp add: Option_assign_spin)
  next
    case out: False
    with assms(1,6) x False have o: "opt' = opt\<lparr>currentValue := v\<rparr>"
      by (simp add: Option_assign_spin store_and_notify_value)
    from out assms(2,3,5) x
    have "\<exists>q. x = Finite q \<and> of_int (min_val opt) \<le> q \<and> q \<le> of_int (max_val opt)"
      by (cases x) auto
    with o x assms(1) show ?thesis
      by (auto simp: spin_in_range_def Option_double_def)
  qed
qed

text \<open>
  Claim C2, as amended. Take a \<^verbatim>\<open>spin\<close> option whose bounds are exact as \<^verbatim>\<open>float\<close> and
  whose current value, read as a number, lies within them. After every run of writes that
  returns and in which no value converts to a NaN, the current value read as a number
  lies within the same bounds.
\<close>

theorem spin_value_stays_in_range:
  assumes "type opt = ''spin''"
    and "float_of_int (min_val opt) = Finite (of_int (min_val opt))"
    and "float_of_int (max_val opt) = Finite (of_int (max_val opt))"
    and "spin_in_range opt" and "\<forall>v \<in> set vs. stof v \<noteq> Inr NaN"
    and "assign_all opt vs w = Inr (opt', w')"
  shows "spin_in_range opt' \<and> min_val opt' = min_val opt \<and> max_val opt' = max_val opt"
  using assms
proof (induction vs arbitrary: opt w)
  case Nil
  then show ?case by simp
next
  case (Cons v vs)
  from Cons.prems(6) obtain opt1 w1 where s: "Option_assign opt v w = Inr (opt1, w1)"
    and r: "assign_all opt1 vs w1 = Inr (opt', w')"
    by (auto split: sum.splits)
  from Cons.prems(5) have n: "stof v \<noteq> Inr NaN" and ns: "\<forall>v \<in> set vs. stof v \<noteq> Inr NaN"
    by simp_all
  from spin_write_keeps_in_range [OF Cons.prems(1-4) n s]
  have k: "type opt1 = ''spin''" "min_val opt1 = min_val opt" "max_val opt1 = max_val opt"
    "spin_in_range opt1"
    by simp_all
  from Cons.IH [of opt1 w1] k ns r Cons.prems(2,3) show ?case
    by simp
qed

lemma Hash_in_range: "spin_in_range (Option_spin 16 1 33554432 (Some on_hash_size))"
  by (simp add: spin_in_range_def Option_double_def Option_spin_def to_string_16 stof_16_000000)

lemma Hash_writes:
  "assign_all (Option_spin 16 1 33554432 (Some on_hash_size)) [''0'', ''64'']
     \<lparr>insert_order = 40, notified = []\<rparr>
   = Inr ((Option_spin 16 1 33554432 (Some on_hash_size))\<lparr>currentValue := ''64''\<rparr>,
          \<lparr>insert_order = 40,
           notified = [(on_hash_size, (Option_spin 16 1 33554432 (Some on_hash_size))\<lparr>currentValue := ''64''\<rparr>)]\<rparr>)"
  by (simp add: Option_assign_spin store_and_notify_value Option_spin_def stof_0 stof_64
        float_of_int_1 float_of_int_MaxHashMB)

theorem spin_value_stays_in_range_witness:
  "spin_in_range (Option_spin 16 1 33554432 (Some on_hash_size))
   \<and> stof ''0'' \<noteq> Inr NaN \<and> stof ''64'' \<noteq> Inr NaN
   \<and> spin_in_range ((Option_spin 16 1 33554432 (Some on_hash_size))\<lparr>currentValue := ''64''\<rparr>)"
proof -
  have t: "type (Option_spin 16 1 33554432 (Some on_hash_size)) = ''spin''"
    by (simp add: Option_spin_def)
  have lo: "float_of_int (min_val (Option_spin 16 1 33554432 (Some on_hash_size)))
              = Finite (of_int (min_val (Option_spin 16 1 33554432 (Some on_hash_size))))"
    by (simp add: Option_spin_def float_of_int_1)
  have hi: "float_of_int (max_val (Option_spin 16 1 33554432 (Some on_hash_size)))
              = Finite (of_int (max_val (Option_spin 16 1 33554432 (Some on_hash_size))))"
    by (simp add: Option_spin_def float_of_int_MaxHashMB)
  have n: "\<forall>v \<in> set [''0'', ''64'']. stof v \<noteq> Inr NaN"
    by (simp add: stof_0 stof_64)
  from spin_value_stays_in_range [OF t lo hi Hash_in_range n Hash_writes]
  show ?thesis using Hash_in_range n by simp
qed

text \<open>
  Claim C2, as stated, holds of every \<^verbatim>\<open>spin\<close> option from its declaration on and after
  any writes. It fails in three ways. The constructor does not compare the default with
  the bounds. The write of \<^verbatim>\<open>nan\<close> to the \<^verbatim>\<open>Hash\<close> option, whose default is in range,
  is accepted, since a NaN is neither less than \<^verbatim>\<open>min\<close> nor greater than \<^verbatim>\<open>max\<close>. And a
  bound that is not exact as a \<^verbatim>\<open>float\<close> is rounded before the comparison: with the lower
  bound 16777217, which rounds to 16777216, the write of \<^verbatim>\<open>16777216\<close> is accepted.
\<close>

theorem spin_value_out_of_range:
  "\<not> spin_in_range (Option_spin 0 1 10 None)
   \<and> spin_in_range (Option_spin 16 1 33554432 (Some on_hash_size))
   \<and> Option_assign (Option_spin 16 1 33554432 (Some on_hash_size)) ''nan'' \<lparr>insert_order = 40, notified = []\<rparr>
       = Inr ((Option_spin 16 1 33554432 (Some on_hash_size))\<lparr>currentValue := ''nan''\<rparr>,
              \<lparr>insert_order = 40, notified = [(on_hash_size, (Option_spin 16 1 33554432 (Some on_hash_size))\<lparr>currentValue := ''nan''\<rparr>)]\<rparr>)
   \<and> \<not> spin_in_range ((Option_spin 16 1 33554432 (Some on_hash_size))\<lparr>currentValue := ''nan''\<rparr>)
   \<and> spin_in_range (Option_spin 16777218 16777217 16777219 None)
   \<and> Option_assign (Option_spin 16777218 16777217 16777219 None) ''16777216'' \<lparr>insert_order = 40, notified = []\<rparr> = Inr ((Option_spin 16777218 16777217 16777219 None)\<lparr>currentValue := ''16777216''\<rparr>, \<lparr>insert_order = 40, notified = []\<rparr>)
   \<and> \<not> spin_in_range ((Option_spin 16777218 16777217 16777219 None)\<lparr>currentValue := ''16777216''\<rparr>)"
proof (intro conjI)
  show "\<not> spin_in_range (Option_spin 0 1 10 None)"
    by (simp add: spin_in_range_def Option_double_def Option_spin_def to_string_0 stof_0_000000)
  show "spin_in_range (Option_spin 16 1 33554432 (Some on_hash_size))"
    by (rule Hash_in_range)
  show "Option_assign (Option_spin 16 1 33554432 (Some on_hash_size)) ''nan'' \<lparr>insert_order = 40, notified = []\<rparr>
       = Inr ((Option_spin 16 1 33554432 (Some on_hash_size))\<lparr>currentValue := ''nan''\<rparr>,
              \<lparr>insert_order = 40, notified = [(on_hash_size, (Option_spin 16 1 33554432 (Some on_hash_size))\<lparr>currentValue := ''nan''\<rparr>)]\<rparr>)"
    by (simp add: Option_assign_spin store_and_notify_value Option_spin_def stof_nan
          float_of_int_1 float_of_int_MaxHashMB)
  show "\<not> spin_in_range ((Option_spin 16 1 33554432 (Some on_hash_size))\<lparr>currentValue := ''nan''\<rparr>)"
    by (simp add: spin_in_range_def Option_double_def Option_spin_def stof_nan)
  show "spin_in_range (Option_spin 16777218 16777217 16777219 None)"
    by (simp add: spin_in_range_def Option_double_def Option_spin_def to_string_16777218
          stof_16777218_000000)
  show "Option_assign (Option_spin 16777218 16777217 16777219 None) ''16777216'' \<lparr>insert_order = 40, notified = []\<rparr> = Inr ((Option_spin 16777218 16777217 16777219 None)\<lparr>currentValue := ''16777216''\<rparr>, \<lparr>insert_order = 40, notified = []\<rparr>)"
    by (simp add: Option_assign_spin store_and_notify_value Option_spin_def stof_16777216
          float_of_int_16777217 float_of_int_16777219)
  show "\<not> spin_in_range ((Option_spin 16777218 16777217 16777219 None)\<lparr>currentValue := ''16777216''\<rparr>)"
    by (simp add: spin_in_range_def Option_double_def Option_spin_def stof_16777216)
qed

subsection \<open>The scenario of the \<^verbatim>\<open>Hash\<close> option\<close>

lemma Hash_declared:
  "fst (declare_option [] ''Hash'' (Option_spin 16 1 33554432 (Some on_hash_size)) n)
     = [(''Hash'', (Option_spin 16 1 33554432 (Some on_hash_size))\<lparr>idx := Some n\<rparr>)]"
  by (simp add: declare_option_def Option_shl_def)

text \<open>
  Claim C8, as amended. Declaring \<^verbatim>\<open>Hash\<close> as a \<^verbatim>\<open>spin\<close> with default 16 and bounds 1
  and 33554432 stores the string \<^verbatim>\<open>16.000000\<close>. A write of \<^verbatim>\<open>0\<close> is rejected: map and
  state are unchanged. A write of \<^verbatim>\<open>64\<close> is accepted: the stored value becomes \<^verbatim>\<open>64\<close> and
  \<^verbatim>\<open>on_hash_size\<close> is called once, with the updated option.
\<close>

theorem Hash_scenario:
  "fst (declare_option [] ''Hash'' (Option_spin 16 1 33554432 (Some on_hash_size)) n)
     = [(''Hash'', (Option_spin 16 1 33554432 (Some on_hash_size))\<lparr>idx := Some n\<rparr>)]
   \<and> currentValue ((Option_spin 16 1 33554432 (Some on_hash_size))\<lparr>idx := Some n\<rparr>) = ''16.000000''
   \<and> om_assign [(''Hash'', (Option_spin 16 1 33554432 (Some on_hash_size))\<lparr>idx := Some n\<rparr>)]
         ''Hash'' ''0'' w
       = Inr ([(''Hash'', (Option_spin 16 1 33554432 (Some on_hash_size))\<lparr>idx := Some n\<rparr>)], w)
   \<and> om_assign [(''Hash'', (Option_spin 16 1 33554432 (Some on_hash_size))\<lparr>idx := Some n\<rparr>)]
         ''Hash'' ''64'' w
       = Inr ([(''Hash'', (Option_spin 16 1 33554432 (Some on_hash_size))
                            \<lparr>idx := Some n, currentValue := ''64''\<rparr>)],
              w\<lparr>notified := notified w @
                   [(on_hash_size, (Option_spin 16 1 33554432 (Some on_hash_size))
                            \<lparr>idx := Some n, currentValue := ''64''\<rparr>)]\<rparr>)"
proof (intro conjI)
  show "fst (declare_option [] ''Hash'' (Option_spin 16 1 33554432 (Some on_hash_size)) n)
     = [(''Hash'', (Option_spin 16 1 33554432 (Some on_hash_size))\<lparr>idx := Some n\<rparr>)]"
    by (rule Hash_declared)
  show "currentValue ((Option_spin 16 1 33554432 (Some on_hash_size))\<lparr>idx := Some n\<rparr>) = ''16.000000''"
    by (simp add: Option_spin_def to_string_16)
  show "om_assign [(''Hash'', (Option_spin 16 1 33554432 (Some on_hash_size))\<lparr>idx := Some n\<rparr>)]
         ''Hash'' ''0'' w
       = Inr ([(''Hash'', (Option_spin 16 1 33554432 (Some on_hash_size))\<lparr>idx := Some n\<rparr>)], w)"
    by (simp add: om_assign_def CaseInsensitiveLess_lowered Option_assign_spin Option_spin_def
          stof_0 float_of_int_1)
  show "om_assign [(''Hash'', (Option_spin 16 1 33554432 (Some on_hash_size))\<lparr>idx := Some n\<rparr>)]
         ''Hash'' ''64'' w
       = Inr ([(''Hash'', (Option_spin 16 1 33554432 (Some on_hash_size))
                            \<lparr>idx := Some n, currentValue := ''64''\<rparr>)],
              w\<lparr>notified := notified w @
                   [(on_hash_size, (Option_spin 16 1 33554432 (Some on_hash_size))
                            \<lparr>idx := Some n, currentValue := ''64''\<rparr>)]\<rparr>)"
    by (simp add: om_assign_def CaseInsensitiveLess_lowered Option_assign_spin
          store_and_notify_value Option_spin_def stof_64 float_of_int_1 float_of_int_MaxHashMB)
qed

text \<open>
  Claim C8, as stated, has the stored value remain the string \<^verbatim>\<open>16\<close> after the rejected
  write. The constructor stores \<^verbatim>\<open>std::to_string(16.0)\<close>, which is \<^verbatim>\<open>16.000000\<close>.
\<close>

theorem Hash_default_is_not_16:
  "om_assign (fst (declare_option [] ''Hash'' (Option_spin 16 1 33554432 (Some on_hash_size)) 0))
      ''Hash'' ''0'' \<lparr>insert_order = 1, notified = []\<rparr>
     = Inr ([(''Hash'', (Option_spin 16 1 33554432 (Some on_hash_size))\<lparr>idx := Some 0\<rparr>)],
            \<lparr>insert_order = 1, notified = []\<rparr>)
   \<and> currentValue ((Option_spin 16 1 33554432 (Some on_hash_size))\<lparr>idx := Some 0\<rparr>) \<noteq> ''16''"
  unfolding Hash_declared
  by (simp add: om_assign_def CaseInsensitiveLess_lowered Option_assign_spin
        Option_spin_def stof_0 float_of_int_1 to_string_16)

subsection \<open>The insertion counter\<close>

lemma ci_equal_Off: "ci_equal ''Off'' ''Off''"
  by (simp add: ci_equal_lowered)

text \<open>
  Claim C10, as amended. The counter belongs to no map. A write of a non-empty value to a
  \<^verbatim>\<open>combo\<close> option advances it, before the value is accepted or rejected, by one for each
  token of the default value, a token that occurs again counting again (modulo the range
  of \<^verbatim>\<open>size_t\<close>). The next declaration, in whichever map, gets the advanced counter as
  its \<^verbatim>\<open>idx\<close>; short of a wrap-around this exceeds every number below the old counter,
  so every \<^verbatim>\<open>idx\<close> handed out before, by more than the number of tokens.
\<close>

theorem combo_write_advances_counter:
  assumes "type opt = ''combo''" and "v \<noteq> []" and "insert_order w < size_t_range"
  shows "\<exists>opt' w'. Option_assign opt v w = Inr (opt', w')
           \<and> insert_order w' = (insert_order w + length (tokens (defaultValue opt))) mod size_t_range
           \<and> (\<forall>om k new. \<exists>k0. om_find (fst (declare_option om k new (insert_order w'))) k
                                  = Some (k0, new\<lparr>idx := Some (insert_order w')\<rparr>))
           \<and> (insert_order w + length (tokens (defaultValue opt)) < size_t_range \<longrightarrow>
                (\<forall>r<insert_order w. r + length (tokens (defaultValue opt)) < insert_order w'))"
proof -
  let ?n = "snd (declare_all [] (map (\<lambda>token. (token, Option_button None))
                   (tokens (defaultValue opt))) (insert_order w))"
  from assms(3) have n: "?n = (insert_order w + length (tokens (defaultValue opt))) mod size_t_range"
    by (simp add: snd_declare_all)
  from assms(1,2) obtain opt' w' where r: "Option_assign opt v w = Inr (opt', w')"
    and c: "insert_order w' = ?n"
    by (cases "(\<exists>t \<in> set (tokens (defaultValue opt)). ci_equal t v) \<and> v \<noteq> ''var''")
       (auto simp: Option_assign_combo store_and_notify_value)
  have d: "\<exists>k0. om_find (fst (declare_option om k new (insert_order w'))) k
                 = Some (k0, new\<lparr>idx := Some (insert_order w')\<rparr>)" for om k new
    using om_find_store_same [of om k "new\<lparr>idx := Some (insert_order w')\<rparr>"]
    by (auto simp: declare_option_def Option_shl_def)
  have g: "insert_order w + length (tokens (defaultValue opt)) < size_t_range \<longrightarrow>
             (\<forall>r<insert_order w. r + length (tokens (defaultValue opt)) < insert_order w')"
    using c n by simp
  from c n have e: "insert_order w' = (insert_order w + length (tokens (defaultValue opt))) mod size_t_range"
    by simp
  show ?thesis
    by (intro exI [of _ opt'] exI [of _ w'] conjI allI) (rule r, rule e, rule d, rule g)
qed

theorem combo_write_advances_counter_witness:
  "insert_order \<lparr>insert_order = 1, notified = []\<rparr> < size_t_range
   \<and> (\<exists>opt' w'. Option_assign (Option_combo ''Both var Off var White var Black var Both'' ''Both'' None)
                    ''Off'' \<lparr>insert_order = 1, notified = []\<rparr> = Inr (opt', w')
                 \<and> insert_order w' = 10)"
proof -
  have t: "type (Option_combo ''Both var Off var White var Black var Both'' ''Both'' None) = ''combo''"
    by (simp add: Option_combo_def)
  have v: "''Off'' \<noteq> []" by simp
  have c: "insert_order \<lparr>insert_order = 1, notified = []\<rparr> < size_t_range"
    by (simp add: size_t_range_def)
  have l: "length (tokens (defaultValue (Option_combo ''Both var Off var White var Black var Both'' ''Both'' None))) = 9"
    by (simp add: Option_combo_def tokens_Analysis_Contempt)
  from combo_write_advances_counter [OF t v c]
  obtain opt' w' where
    "Option_assign (Option_combo ''Both var Off var White var Black var Both'' ''Both'' None)
        ''Off'' \<lparr>insert_order = 1, notified = []\<rparr> = Inr (opt', w')"
    "insert_order w' = (insert_order \<lparr>insert_order = 1, notified = []\<rparr>
        + length (tokens (defaultValue (Option_combo ''Both var Off var White var Black var Both'' ''Both'' None))))
        mod size_t_range"
    by blast
  then show ?thesis using c by (auto simp: l size_t_range_def)
qed

text \<open>
  Claim C10, as stated, has the counter advance by one for each distinct token. The
  default value of \<^verbatim>\<open>Analysis Contempt\<close> has nine tokens, five of them distinct; a write
  to it takes the counter from 1 to 10.
\<close>

theorem counter_counts_repeated_tokens:
  "Option_assign (Option_combo ''Both var Off var White var Black var Both'' ''Both'' None)
      ''Off'' \<lparr>insert_order = 1, notified = []\<rparr>
     = Inr ((Option_combo ''Both var Off var White var Black var Both'' ''Both'' None)\<lparr>currentValue := ''Off''\<rparr>,
            \<lparr>insert_order = 10, notified = []\<rparr>)
   \<and> length (remdups (map lowered (tokens (defaultValue
         (Option_combo ''Both var Off var White var Black var Both'' ''Both'' None))))) = 5"
proof
  have t: "type (Option_combo ''Both var Off var White var Black var Both'' ''Both'' None) = ''combo''"
    by (simp add: Option_combo_def)
  have d: "defaultValue (Option_combo ''Both var Off var White var Black var Both'' ''Both'' None)
             = ''Both var Off var White var Black var Both''"
    by (simp add: Option_combo_def)
  have h: "on_change (Option_combo ''Both var Off var White var Black var Both'' ''Both'' None) = None"
    by (simp add: Option_combo_def)
  have "snd (declare_all []
             (map (\<lambda>token. (token, Option_button None))
                  [''Both'', ''var'', ''Off'', ''var'', ''White'', ''var'', ''Black'', ''var'', ''Both''])
             (insert_order \<lparr>insert_order = 1, notified = []\<rparr>))
        = (insert_order \<lparr>insert_order = 1, notified = []\<rparr>
           + length (map (\<lambda>token. (token, Option_button None))
                  [''Both'', ''var'', ''Off'', ''var'', ''White'', ''var'', ''Black'', ''var'', ''Both'']))
          mod size_t_range"
    by (rule snd_declare_all) (simp add: size_t_range_def)
  also have "\<dots> = 10"
    by (simp add: size_t_range_def)
  finally have c: "snd (declare_all []
             (map (\<lambda>token. (token, Option_button None))
                  [''Both'', ''var'', ''Off'', ''var'', ''White'', ''var'', ''Black'', ''var'', ''Both''])
             (insert_order \<lparr>insert_order = 1, notified = []\<rparr>)) = 10" .
  show "Option_assign (Option_combo ''Both var Off var White var Black var Both'' ''Both'' None)
      ''Off'' \<lparr>insert_order = 1, notified = []\<rparr>
     = Inr ((Option_combo ''Both var Off var White var Black var Both'' ''Both'' None)\<lparr>currentValue := ''Off''\<rparr>,
            \<lparr>insert_order = 10, notified = []\<rparr>)"
    unfolding Option_assign_combo [OF t] d tokens_Analysis_Contempt c
    by (simp add: store_and_notify_value t h ci_equal_Off)
  show "length (remdups (map lowered (tokens (defaultValue
         (Option_combo ''Both var Off var White var Black var Both'' ''Both'' None))))) = 5"
    unfolding d tokens_Analysis_Contempt
    by (simp add: lowered_def tolower_def char_to_int_def)
qed

subsection \<open>Printing in the order of declaration\<close>

lemma first_with_idx_ranks:
  "map_option (\<lambda>e. (fst e, idx (snd e))) (first_with_idx om i)
     = List.find (\<lambda>p. snd p = Some i) (ranks om)"
  by (induction om) (auto simp: ranks_def)

lemma ranks_print_order:
  "ranks (print_order om)
     = concat (map (\<lambda>i. case List.find (\<lambda>p. snd p = Some i) (ranks om) of
                            None \<Rightarrow> [] | Some p \<Rightarrow> [p])
                   [0..<length (ranks om)])"
proof -
  have "map (\<lambda>e. (fst e, idx (snd e))) (case first_with_idx om i of None \<Rightarrow> [] | Some e \<Rightarrow> [e])
          = (case List.find (\<lambda>p. snd p = Some i) (ranks om) of None \<Rightarrow> [] | Some p \<Rightarrow> [p])" for i
    unfolding first_with_idx_ranks [symmetric] by (cases "first_with_idx om i") simp_all
  then show ?thesis
    by (simp add: print_order_def ranks_def map_concat comp_def)
qed

lemma om_store_fresh:
  "\<forall>e \<in> set om. lowered (fst e) \<noteq> lowered k \<Longrightarrow>
   set (om_store om k v) = insert (k, v) (set om) \<and> length (om_store om k v) = Suc (length om)"
proof (induction om)
  case Nil
  show ?case by simp
next
  case (Cons e om)
  obtain a b where e: "e = (a, b)" by (cases e)
  from Cons.prems e have ne: "lowered a \<noteq> lowered k" by simp
  from Cons.prems have "\<forall>e \<in> set om. lowered (fst e) \<noteq> lowered k" by simp
  note ih = Cons.IH [OF this]
  from ne consider "lowered k < lowered a" | "lowered a < lowered k"
    using linorder_less_linear by blast
  then show ?case
  proof cases
    case 1
    then show ?thesis using e by (simp add: CaseInsensitiveLess_lowered)
  next
    case 2
    then have "\<not> lowered k < lowered a" by simp
    with 2 ih e show ?thesis by (auto simp: CaseInsensitiveLess_lowered)
  qed
qed

lemma declare_all_fresh:
  assumes "distinct (map (\<lambda>d. lowered (fst d)) ds)"
    and "\<forall>e \<in> set om. \<forall>d \<in> set ds. lowered (fst e) \<noteq> lowered (fst d)"
    and "n + length ds < size_t_range"
  shows "set (ranks (fst (declare_all om ds n)))
           = set (ranks om) \<union> set (zip (map fst ds) (map Some [n..<n + length ds]))
         \<and> length (fst (declare_all om ds n)) = length om + length ds"
  using assms
proof (induction ds arbitrary: om n)
  case Nil
  then show ?case by simp
next
  case (Cons d ds)
  obtain k opt where d: "d = (k, opt)" by (cases d)
  let ?om1 = "om_store om k (opt\<lparr>idx := Some n\<rparr>)"
  from Cons.prems(2) d have f: "\<forall>e \<in> set om. lowered (fst e) \<noteq> lowered k" by auto
  note st = om_store_fresh [OF f, of "opt\<lparr>idx := Some n\<rparr>"]
  from Cons.prems(3) have m: "(n + 1) mod size_t_range = Suc n" by simp
  have p1: "distinct (map (\<lambda>d. lowered (fst d)) ds)" using Cons.prems(1) by simp
  have p2: "\<forall>e \<in> set ?om1. \<forall>d \<in> set ds. lowered (fst e) \<noteq> lowered (fst d)"
    using st Cons.prems(1,2) d by auto
  have p3: "Suc n + length ds < size_t_range" using Cons.prems(3) by simp
  note ih = Cons.IH [OF p1 p2 p3]
  have u: "[n..<n + length (d # ds)] = n # [Suc n..<Suc n + length ds]"
  proof -
    have a: "n + length (d # ds) = Suc n + length ds" by simp
    have "n < Suc n + length ds" by simp
    from upt_conv_Cons [OF this] show ?thesis unfolding a .
  qed
  have r1: "set (ranks ?om1) = insert (k, Some n) (set (ranks om))"
    using st by (auto simp: ranks_def)
  have e: "declare_all om (d # ds) n = declare_all ?om1 ds (Suc n)"
    using d m by (simp add: declare_option_def Option_shl_def)
  show ?case
    unfolding e u using ih r1 st d by auto
qed

lemma enumerate_ranks:
  assumes "set rs = set (zip names (map Some [0..<length names]))"
    and "length rs = length names"
  shows "concat (map (\<lambda>i. case List.find (\<lambda>p. snd p = Some i) rs of None \<Rightarrow> [] | Some p \<Rightarrow> [p])
                     [0..<length rs])
           = zip names (map Some [0..<length names])"
proof -
  have f: "List.find (\<lambda>p. snd p = Some i) rs = Some (names ! i, Some i)" if "i < length names" for i
  proof -
    from that have "(names ! i, Some i) \<in> set rs"
      unfolding assms(1) by (auto simp: set_zip intro!: exI [of _ i])
    then obtain p where p: "List.find (\<lambda>p. snd p = Some i) rs = Some p"
      by (cases "List.find (\<lambda>p. snd p = Some i) rs") (auto simp: find_None_iff)
    then have "p \<in> set rs" and "snd p = Some i"
      by (auto simp: find_Some_iff)
    then have "p = (names ! i, Some i)"
      unfolding assms(1) by (auto simp: set_zip)
    with p show ?thesis by simp
  qed
  have "map (\<lambda>i. case List.find (\<lambda>p. snd p = Some i) rs of None \<Rightarrow> [] | Some p \<Rightarrow> [p])
            [0..<length rs]
        = map (\<lambda>i. [(names ! i, Some i)]) [0..<length names]"
    using f assms(2) by (intro map_cong) auto
  moreover have "concat (map (\<lambda>i. [(names ! i, Some i)]) [0..<length names])
                   = zip names (map Some [0..<length names])"
    by (intro nth_equalityI) (simp_all add: concat_map_singleton)
  ultimately show ?thesis by simp
qed

lemma Option_assign_idx:
  assumes "Option_assign opt v w = Inr (opt', w')"
  shows "idx opt' = idx opt"
proof -
  have s: "idx o2 = idx opt" if "store_and_notify opt v w1 = (o2, w2)" for w1 o2 w2
    using that by (auto simp: store_and_notify_def Let_def split: if_splits)
  consider (button) "type opt = ''button''" | (check) "type opt = ''check''"
    | (spin) "type opt = ''spin''" | (combo) "type opt = ''combo''"
    | (other) "type opt \<noteq> []" "type opt \<noteq> ''button''" "type opt \<noteq> ''check''"
        "type opt \<noteq> ''spin''" "type opt \<noteq> ''combo''"
    | (empty) "type opt = []"
    by blast
  then show ?thesis
  proof cases
    case button
    with assms s show ?thesis by (auto simp: Option_assign_button)
  next
    case check
    with assms s show ?thesis by (auto simp: Option_assign_check split: if_splits)
  next
    case spin
    with assms s show ?thesis
      by (auto simp: Option_assign_spin split: if_splits sum.splits)
  next
    case combo
    with assms s show ?thesis
      by (auto simp: Option_assign_combo split: if_splits)
  next
    case other
    with assms s show ?thesis by (auto simp: Option_assign_other split: if_splits)
  next
    case empty
    with assms show ?thesis by (simp add: Option_assign_def)
  qed
qed

lemma om_store_found_ranks:
  "om_find om name = Some (k, opt) \<Longrightarrow> idx opt' = idx opt \<Longrightarrow>
   ranks (om_store om name opt') = ranks om"
proof (induction om)
  case Nil
  then show ?case by simp
next
  case (Cons e om)
  obtain a b where e: "e = (a, b)" by (cases e)
  consider "lowered name < lowered a" | "lowered a < lowered name" | "lowered name = lowered a"
    using linorder_less_linear by blast
  then show ?case
  proof cases
    case 1
    with Cons.prems e show ?thesis by (simp add: CaseInsensitiveLess_lowered)
  next
    case 2
    then have "\<not> lowered name < lowered a" by simp
    with 2 Cons e show ?thesis by (simp add: CaseInsensitiveLess_lowered ranks_def)
  next
    case 3
    with Cons.prems e show ?thesis by (simp add: CaseInsensitiveLess_lowered ranks_def)
  qed
qed

lemma om_find_None_keys:
  "map fst om' = map fst om \<Longrightarrow> (om_find om' k = None) = (om_find om k = None)"
proof (induction om arbitrary: om')
  case Nil
  then show ?case by simp
next
  case (Cons e om)
  then obtain e' om1 where o: "om' = e' # om1" "fst e' = fst e" "map fst om1 = map fst om"
    by (cases om') auto
  with Cons.IH [of om1] show ?case
    by (cases e; cases e') auto
qed

lemma om_assign_ranks:
  assumes "om_find om name \<noteq> None" and "om_assign om name v w = Inr (om', w')"
  shows "ranks om' = ranks om"
proof -
  from assms(1) obtain k opt where f: "om_find om name = Some (k, opt)" by auto
  with assms(2) obtain opt' where a: "Option_assign opt v w = Inr (opt', w')"
    and o: "om' = om_store om name opt'"
    by (auto simp: om_assign_def split: sum.splits)
  from Option_assign_idx [OF a] have "idx opt' = idx opt" .
  with f o show ?thesis by (simp add: om_store_found_ranks)
qed

lemma om_assign_all_ranks:
  assumes "\<forall>x \<in> set ws. om_find om (fst x) \<noteq> None"
    and "om_assign_all om ws w = Inr (om', w')"
  shows "ranks om' = ranks om"
  using assms
proof (induction ws arbitrary: om w)
  case Nil
  then show ?case by simp
next
  case (Cons x ws)
  obtain name v where x: "x = (name, v)" by (cases x)
  from Cons.prems(2) x obtain om1 w1 where a: "om_assign om name v w = Inr (om1, w1)"
    and r: "om_assign_all om1 ws w1 = Inr (om', w')"
    by (auto split: sum.splits)
  from Cons.prems(1) x have "om_find om name \<noteq> None" by simp
  from om_assign_ranks [OF this a] have k: "ranks om1 = ranks om" .
  have "map fst (ranks om1) = map fst om1" and "map fst (ranks om) = map fst om"
    by (simp_all add: ranks_def comp_def)
  with k have "map fst om1 = map fst om" by simp
  from om_find_None_keys [OF this] Cons.prems(1)
  have "\<forall>x \<in> set ws. om_find om1 (fst x) \<noteq> None" by simp
  from Cons.IH [OF this r] k show ?case by simp
qed

lemma first_with_idx_Some:
  "first_with_idx om i = Some e \<Longrightarrow> e \<in> set om \<and> idx (snd e) = Some i"
  by (induction om) (auto split: if_splits)

lemma print_order_idx:
  "map (\<lambda>e. idx (snd e))
       (concat (map (\<lambda>i. case first_with_idx om i of None \<Rightarrow> [] | Some e \<Rightarrow> [e]) xs))
     = map Some (filter (\<lambda>i. first_with_idx om i \<noteq> None) xs)"
proof (induction xs)
  case Nil
  show ?case by simp
next
  case (Cons i xs)
  show ?case
  proof (cases "first_with_idx om i")
    case None
    with Cons show ?thesis by simp
  next
    case (Some e)
    with first_with_idx_Some [OF Some] Cons show ?thesis by simp
  qed
qed

lemma print_order_ascending:
  "\<exists>js. sorted_wrt (<) js \<and> map (\<lambda>e. idx (snd e)) (print_order om) = map Some js"
proof (intro exI conjI)
  show "sorted_wrt (<) (filter (\<lambda>i. first_with_idx om i \<noteq> None) [0..<length om])"
    by (rule sorted_wrt_filter) simp
  show "map (\<lambda>e. idx (snd e)) (print_order om)
          = map Some (filter (\<lambda>i. first_with_idx om i \<noteq> None) [0..<length om])"
    unfolding print_order_def by (rule print_order_idx)
qed

lemma print_order_subset: "set (print_order om) \<subseteq> set om"
proof
  fix e
  assume "e \<in> set (print_order om)"
  then obtain i where "first_with_idx om i = Some e"
    by (auto simp: print_order_def split: option.splits)
  from first_with_idx_Some [OF this] show "e \<in> set om" by simp
qed

lemma print_order_complete:
  assumes "distinct (map (\<lambda>d. lowered (fst d)) ds)" and "length ds < size_t_range"
    and "\<forall>x \<in> set ws. om_count (fst (declare_all [] ds 0)) (fst x) = 1"
    and "om_assign_all (fst (declare_all [] ds 0)) ws w = Inr (om', w')"
  shows "ranks (print_order om') = zip (map fst ds) (map Some [0..<length ds])"
proof -
  let ?om = "fst (declare_all [] ds 0)"
  from assms(3) have "\<forall>x \<in> set ws. om_find ?om (fst x) \<noteq> None"
    by (auto simp: om_count_def split: option.splits)
  from om_assign_all_ranks [OF this assms(4)] have k: "ranks om' = ranks ?om" .
  from declare_all_fresh [of ds "[]" 0] assms(1,2)
  have s: "set (ranks ?om) = set (zip (map fst ds) (map Some [0..<length ds]))"
    and l: "length ?om = length ds"
    by (simp_all add: ranks_def)
  from l have l': "length (ranks ?om) = length (map fst ds)" by (simp add: ranks_def)
  from s have s': "set (ranks ?om) = set (zip (map fst ds) (map Some [0..<length (map fst ds)]))"
    by simp
  from enumerate_ranks [OF s' l'] show ?thesis
    unfolding ranks_print_order k by simp
qed

text \<open>
  Claim C4, as amended. Whatever the map, printing yields entries of the map in strictly
  ascending order of \<^verbatim>\<open>idx\<close>, hence each at most once, under the keys of the map. When
  the map was filled from empty, with the insertion counter at 0, by declarations of names
  that differ pairwise even when case is ignored, and any writes to declared names have
  followed, printing yields every declared option exactly once, in the order of
  declaration, each under the name it was declared with.
\<close>

theorem print_order_after_init:
  "(\<exists>js. sorted_wrt (<) js \<and> map (\<lambda>e. idx (snd e)) (print_order om) = map Some js)
   \<and> set (print_order om) \<subseteq> set om
   \<and> (distinct (map (\<lambda>d. lowered (fst d)) ds) \<and> length ds < size_t_range
        \<and> (\<forall>x \<in> set ws. om_count (fst (declare_all [] ds 0)) (fst x) = 1)
        \<and> om_assign_all (fst (declare_all [] ds 0)) ws w = Inr (om, w')
      \<longrightarrow> ranks (print_order om) = zip (map fst ds) (map Some [0..<length ds]))"
proof (intro conjI impI)
  show "\<exists>js. sorted_wrt (<) js \<and> map (\<lambda>e. idx (snd e)) (print_order om) = map Some js"
    by (rule print_order_ascending)
  show "set (print_order om) \<subseteq> set om"
    by (rule print_order_subset)
next
  assume "distinct (map (\<lambda>d. lowered (fst d)) ds) \<and> length ds < size_t_range
        \<and> (\<forall>x \<in> set ws. om_count (fst (declare_all [] ds 0)) (fst x) = 1)
        \<and> om_assign_all (fst (declare_all [] ds 0)) ws w = Inr (om, w')"
  then show "ranks (print_order om) = zip (map fst ds) (map Some [0..<length ds])"
    using print_order_complete [of ds ws w om w'] by blast
qed

lemma lowered_names:
  "lowered ''Threads'' \<noteq> lowered ''Hash''" "lowered ''Threads'' \<noteq> lowered ''Clear Hash''"
  "lowered ''Hash'' \<noteq> lowered ''Clear Hash''" "lowered ''hash'' = lowered ''Hash''"
  "lowered ''Hash'' < lowered ''Threads''" "lowered ''Clear Hash'' < lowered ''Hash''"
  "lowered ''Clear Hash'' < lowered ''Threads''" "lowered ''threads'' = lowered ''Threads''"
  "lowered ''Analysis Contempt'' < lowered ''Threads''"
  "\<not> lowered ''Hash'' < lowered ''Clear Hash''" "\<not> lowered ''Threads'' < lowered ''Hash''"
  "\<not> lowered ''Threads'' < lowered ''Clear Hash''"
  "\<not> lowered ''Threads'' < lowered ''Analysis Contempt''"
  by (simp_all add: lowered_def tolower_def char_to_int_def)

lemma init_three:
  "fst (declare_all [] [(''Threads'', (Option_spin 1 1 512 (Some on_threads))), (''Hash'', (Option_spin 16 1 33554432 (Some on_hash_size))), (''Clear Hash'', (Option_button (Some on_clear_hash)))] 0) = [(''Clear Hash'', (Option_button (Some on_clear_hash))\<lparr>idx := Some 2\<rparr>), (''Hash'', (Option_spin 16 1 33554432 (Some on_hash_size))\<lparr>idx := Some 1\<rparr>), (''Threads'', (Option_spin 1 1 512 (Some on_threads))\<lparr>idx := Some 0\<rparr>)]"
  using lowered_names
  by (simp add: declare_option_def Option_shl_def CaseInsensitiveLess_lowered size_t_range_def)

lemma write_three:
  "om_assign_all [(''Clear Hash'', (Option_button (Some on_clear_hash))\<lparr>idx := Some 2\<rparr>), (''Hash'', (Option_spin 16 1 33554432 (Some on_hash_size))\<lparr>idx := Some 1\<rparr>), (''Threads'', (Option_spin 1 1 512 (Some on_threads))\<lparr>idx := Some 0\<rparr>)] [(''hash'', ''64'')] \<lparr>insert_order = 3, notified = []\<rparr> = Inr ([(''Clear Hash'', (Option_button (Some on_clear_hash))\<lparr>idx := Some 2\<rparr>), (''Hash'', (Option_spin 16 1 33554432 (Some on_hash_size))\<lparr>idx := Some 1, currentValue := ''64''\<rparr>), (''Threads'', (Option_spin 1 1 512 (Some on_threads))\<lparr>idx := Some 0\<rparr>)], \<lparr>insert_order = 3, notified = [(on_hash_size, (Option_spin 16 1 33554432 (Some on_hash_size))\<lparr>idx := Some 1, currentValue := ''64''\<rparr>)]\<rparr>)"
  using lowered_names
  by (simp add: om_assign_def CaseInsensitiveLess_lowered Option_assign_spin
        store_and_notify_value Option_spin_def stof_64 float_of_int_1 float_of_int_MaxHashMB)

theorem print_order_after_init_witness:
  "distinct (map (\<lambda>d. lowered (fst d)) [(''Threads'', (Option_spin 1 1 512 (Some on_threads))), (''Hash'', (Option_spin 16 1 33554432 (Some on_hash_size))), (''Clear Hash'', (Option_button (Some on_clear_hash)))])
   \<and> length [(''Threads'', (Option_spin 1 1 512 (Some on_threads))), (''Hash'', (Option_spin 16 1 33554432 (Some on_hash_size))), (''Clear Hash'', (Option_button (Some on_clear_hash)))] < size_t_range
   \<and> om_count (fst (declare_all [] [(''Threads'', (Option_spin 1 1 512 (Some on_threads))), (''Hash'', (Option_spin 16 1 33554432 (Some on_hash_size))), (''Clear Hash'', (Option_button (Some on_clear_hash)))] 0)) ''hash'' = 1
   \<and> om_assign_all (fst (declare_all [] [(''Threads'', (Option_spin 1 1 512 (Some on_threads))), (''Hash'', (Option_spin 16 1 33554432 (Some on_hash_size))), (''Clear Hash'', (Option_button (Some on_clear_hash)))] 0)) [(''hash'', ''64'')] \<lparr>insert_order = 3, notified = []\<rparr> = Inr ([(''Clear Hash'', (Option_button (Some on_clear_hash))\<lparr>idx := Some 2\<rparr>), (''Hash'', (Option_spin 16 1 33554432 (Some on_hash_size))\<lparr>idx := Some 1, currentValue := ''64''\<rparr>), (''Threads'', (Option_spin 1 1 512 (Some on_threads))\<lparr>idx := Some 0\<rparr>)], \<lparr>insert_order = 3, notified = [(on_hash_size, (Option_spin 16 1 33554432 (Some on_hash_size))\<lparr>idx := Some 1, currentValue := ''64''\<rparr>)]\<rparr>)
   \<and> ranks (print_order [(''Clear Hash'', (Option_button (Some on_clear_hash))\<lparr>idx := Some 2\<rparr>), (''Hash'', (Option_spin 16 1 33554432 (Some on_hash_size))\<lparr>idx := Some 1, currentValue := ''64''\<rparr>), (''Threads'', (Option_spin 1 1 512 (Some on_threads))\<lparr>idx := Some 0\<rparr>)]) = [(''Threads'', Some 0), (''Hash'', Some 1), (''Clear Hash'', Some 2)]"
proof -
  have d: "distinct (map (\<lambda>d. lowered (fst d)) [(''Threads'', (Option_spin 1 1 512 (Some on_threads))), (''Hash'', (Option_spin 16 1 33554432 (Some on_hash_size))), (''Clear Hash'', (Option_button (Some on_clear_hash)))])"
    using lowered_names by simp
  have l: "length [(''Threads'', (Option_spin 1 1 512 (Some on_threads))), (''Hash'', (Option_spin 16 1 33554432 (Some on_hash_size))), (''Clear Hash'', (Option_button (Some on_clear_hash)))] < size_t_range"
    by (simp add: size_t_range_def)
  have c: "om_count (fst (declare_all [] [(''Threads'', (Option_spin 1 1 512 (Some on_threads))), (''Hash'', (Option_spin 16 1 33554432 (Some on_hash_size))), (''Clear Hash'', (Option_button (Some on_clear_hash)))] 0)) ''hash'' = 1"
    unfolding init_three using lowered_names
    by (simp add: om_count_def CaseInsensitiveLess_lowered)
  then have c': "\<forall>x \<in> set [(''hash'', ''64'')]. om_count (fst (declare_all [] [(''Threads'', (Option_spin 1 1 512 (Some on_threads))), (''Hash'', (Option_spin 16 1 33554432 (Some on_hash_size))), (''Clear Hash'', (Option_button (Some on_clear_hash)))] 0)) (fst x) = 1"
    by simp
  have a: "om_assign_all (fst (declare_all [] [(''Threads'', (Option_spin 1 1 512 (Some on_threads))), (''Hash'', (Option_spin 16 1 33554432 (Some on_hash_size))), (''Clear Hash'', (Option_button (Some on_clear_hash)))] 0)) [(''hash'', ''64'')] \<lparr>insert_order = 3, notified = []\<rparr> = Inr ([(''Clear Hash'', (Option_button (Some on_clear_hash))\<lparr>idx := Some 2\<rparr>), (''Hash'', (Option_spin 16 1 33554432 (Some on_hash_size))\<lparr>idx := Some 1, currentValue := ''64''\<rparr>), (''Threads'', (Option_spin 1 1 512 (Some on_threads))\<lparr>idx := Some 0\<rparr>)], \<lparr>insert_order = 3, notified = [(on_hash_size, (Option_spin 16 1 33554432 (Some on_hash_size))\<lparr>idx := Some 1, currentValue := ''64''\<rparr>)]\<rparr>)"
    unfolding init_three by (rule write_three)
  from print_order_after_init d l c' a
  have "ranks (print_order [(''Clear Hash'', (Option_button (Some on_clear_hash))\<lparr>idx := Some 2\<rparr>), (''Hash'', (Option_spin 16 1 33554432 (Some on_hash_size))\<lparr>idx := Some 1, currentValue := ''64''\<rparr>), (''Threads'', (Option_spin 1 1 512 (Some on_threads))\<lparr>idx := Some 0\<rparr>)]) = zip (map fst [(''Threads'', (Option_spin 1 1 512 (Some on_threads))), (''Hash'', (Option_spin 16 1 33554432 (Some on_hash_size))), (''Clear Hash'', (Option_button (Some on_clear_hash)))]) (map Some [0..<length [(''Threads'', (Option_spin 1 1 512 (Some on_threads))), (''Hash'', (Option_spin 16 1 33554432 (Some on_hash_size))), (''Clear Hash'', (Option_button (Some on_clear_hash)))]])"
    by blast
  also have "\<dots> = [(''Threads'', Some 0), (''Hash'', Some 1), (''Clear Hash'', Some 2)]"
    by (simp add: upt_rec)
  finally show ?thesis using d l c a by simp
qed

lemma Analysis_Contempt_write:
  assumes "type opt = ''combo''"
    and "defaultValue opt = ''Both var Off var White var Black var Both''"
    and "on_change opt = None"
  shows "Option_assign opt ''Off'' \<lparr>insert_order = 1, notified = []\<rparr> = Inr (opt\<lparr>currentValue := ''Off''\<rparr>, \<lparr>insert_order = 10, notified = []\<rparr>)"
proof -
  have "snd (declare_all [] (map (\<lambda>token. (token, Option_button None)) [''Both'', ''var'', ''Off'', ''var'', ''White'', ''var'', ''Black'', ''var'', ''Both''])
             (insert_order \<lparr>insert_order = 1, notified = []\<rparr>))
        = (insert_order \<lparr>insert_order = 1, notified = []\<rparr> + length (map (\<lambda>token. (token, Option_button None)) [''Both'', ''var'', ''Off'', ''var'', ''White'', ''var'', ''Black'', ''var'', ''Both'']))
          mod size_t_range"
    by (rule snd_declare_all) (simp add: size_t_range_def)
  also have "\<dots> = 10"
    by (simp add: size_t_range_def)
  finally have c: "snd (declare_all [] (map (\<lambda>token. (token, Option_button None)) [''Both'', ''var'', ''Off'', ''var'', ''White'', ''var'', ''Black'', ''var'', ''Both''])
             (insert_order \<lparr>insert_order = 1, notified = []\<rparr>)) = 10" .
  show ?thesis
    unfolding Option_assign_combo [OF assms(1)] assms(2) tokens_Analysis_Contempt c
    by (simp add: store_and_notify_value assms(1,3) ci_equal_Off)
qed

text \<open>
  Claim C4, as stated, holds whatever declarations, lookups and writes come in between.
  A write to the \<^verbatim>\<open>combo\<close> option \<^verbatim>\<open>Analysis Contempt\<close> takes the counter from 1 to 10, so
  that \<^verbatim>\<open>Threads\<close>, declared next, gets the \<^verbatim>\<open>idx\<close> 10 in a map of two entries and is
  never printed. Declaring \<^verbatim>\<open>Threads\<close> and then \<^verbatim>\<open>threads\<close> leaves one entry with the
  \<^verbatim>\<open>idx\<close> 1, and nothing is printed.
\<close>

theorem print_order_misses_later_declaration:
  "om_assign (fst (declare_option [] ''Analysis Contempt'' (Option_combo ''Both var Off var White var Black var Both'' ''Both'' None) 0)) ''Analysis Contempt'' ''Off'' \<lparr>insert_order = 1, notified = []\<rparr>
     = Inr ([(''Analysis Contempt'', (Option_combo ''Both var Off var White var Black var Both'' ''Both'' None)\<lparr>idx := Some 0, currentValue := ''Off''\<rparr>)], \<lparr>insert_order = 10, notified = []\<rparr>)
   \<and> map fst (print_order (fst (declare_option [(''Analysis Contempt'', (Option_combo ''Both var Off var White var Black var Both'' ''Both'' None)\<lparr>idx := Some 0, currentValue := ''Off''\<rparr>)] ''Threads'' (Option_spin 1 1 512 (Some on_threads)) 10)))
       = [''Analysis Contempt'']
   \<and> map fst (print_order (fst (declare_all [] [(''Threads'', (Option_spin 1 1 512 (Some on_threads))), (''threads'', (Option_spin 1 1 512 (Some on_threads)))] 0))) = []"
proof (intro conjI)
  have dec: "fst (declare_option [] ''Analysis Contempt'' (Option_combo ''Both var Off var White var Black var Both'' ''Both'' None) 0) = [(''Analysis Contempt'', (Option_combo ''Both var Off var White var Black var Both'' ''Both'' None)\<lparr>idx := Some 0\<rparr>)]"
    by (simp add: declare_option_def Option_shl_def)
  have fnd: "om_find [(''Analysis Contempt'', (Option_combo ''Both var Off var White var Black var Both'' ''Both'' None)\<lparr>idx := Some 0\<rparr>)] ''Analysis Contempt''
               = Some (''Analysis Contempt'', (Option_combo ''Both var Off var White var Black var Both'' ''Both'' None)\<lparr>idx := Some 0\<rparr>)"
    by (simp add: CaseInsensitiveLess_lowered)
  have asg: "Option_assign ((Option_combo ''Both var Off var White var Black var Both'' ''Both'' None)\<lparr>idx := Some 0\<rparr>) ''Off'' \<lparr>insert_order = 1, notified = []\<rparr>
               = Inr (((Option_combo ''Both var Off var White var Black var Both'' ''Both'' None)\<lparr>idx := Some 0\<rparr>)\<lparr>currentValue := ''Off''\<rparr>, \<lparr>insert_order = 10, notified = []\<rparr>)"
    by (rule Analysis_Contempt_write) (simp_all add: Option_combo_def)
  have sto: "om_store [(''Analysis Contempt'', (Option_combo ''Both var Off var White var Black var Both'' ''Both'' None)\<lparr>idx := Some 0\<rparr>)] ''Analysis Contempt'' (((Option_combo ''Both var Off var White var Black var Both'' ''Both'' None)\<lparr>idx := Some 0\<rparr>)\<lparr>currentValue := ''Off''\<rparr>)
               = [(''Analysis Contempt'', (Option_combo ''Both var Off var White var Black var Both'' ''Both'' None)\<lparr>idx := Some 0, currentValue := ''Off''\<rparr>)]"
    by (simp add: CaseInsensitiveLess_lowered)
  show "om_assign (fst (declare_option [] ''Analysis Contempt'' (Option_combo ''Both var Off var White var Black var Both'' ''Both'' None) 0)) ''Analysis Contempt'' ''Off'' \<lparr>insert_order = 1, notified = []\<rparr>
     = Inr ([(''Analysis Contempt'', (Option_combo ''Both var Off var White var Black var Both'' ''Both'' None)\<lparr>idx := Some 0, currentValue := ''Off''\<rparr>)], \<lparr>insert_order = 10, notified = []\<rparr>)"
    by (simp only: om_assign_def Let_def dec fnd option.case snd_conv asg sum.case prod.case sto)
  show "map fst (print_order (fst (declare_option [(''Analysis Contempt'', (Option_combo ''Both var Off var White var Black var Both'' ''Both'' None)\<lparr>idx := Some 0, currentValue := ''Off''\<rparr>)] ''Threads'' (Option_spin 1 1 512 (Some on_threads)) 10)))
       = [''Analysis Contempt'']"
    using lowered_names
    by (simp add: declare_option_def Option_shl_def CaseInsensitiveLess_lowered print_order_def upt_rec)
  show "map fst (print_order (fst (declare_all [] [(''Threads'', (Option_spin 1 1 512 (Some on_threads))), (''threads'', (Option_spin 1 1 512 (Some on_threads)))] 0))) = []"
    using lowered_names
    by (simp add: declare_option_def Option_shl_def CaseInsensitiveLess_lowered print_order_def
          size_t_range_def upt_rec)
qed

end
